theory Spec2Isabelle
  imports Complex_Main
begin

section \<open>Kmart Stock Monitor: the monitoring engine\<close>

text \<open>
  The repository holds two copies of the background engine: the service worker of
  \<^verbatim>\<open>src/background/service-worker.js\<close> and a later revision of the same file that
  follows the options page in \<^verbatim>\<open>src/options/options.js\<close>. The later revision has the
  four-signal validity classifier, the stored-name repair and the add-to-bag retry loop.
  Every definition that differs between the two takes the engine as a parameter.

  Modelling conventions: JavaScript numbers that hold prices, percentages and random
  values are real numbers, and each arithmetic operation the code performs on them is
  rounded to the nearest double (\<open>fl\<close> below); comparisons are exact, as they are on
  doubles. Counters are natural numbers; timestamps and delays are integers (milliseconds); a value that can
  be \<^verbatim>\<open>null\<close> or \<^verbatim>\<open>undefined\<close> is an option. Strings are lists of 8-bit characters, one
  character per code unit. An exception is a value: a procedure that can throw returns
  either the state it reached or the message thrown together with the state at the throw.
  The calls to the browser, the notifier, the timers and the log are recorded in order in
  the state, so that a property can speak about what a run did. Fields that the engine
  neither reads nor writes in the code modelled here (\<^verbatim>\<open>addedAt\<close>, \<^verbatim>\<open>tags\<close>,
  \<^verbatim>\<open>selectedVariants\<close>, the settings of the options page that the engine ignores) are
  left out.
\<close>

datatype engine = ServiceWorker | Revised

subsection \<open>String primitives of the host language\<close>

definition isWhiteSpace :: "char \<Rightarrow> bool" where
  \<comment> \<open>the characters that \<^verbatim>\<open>trim()\<close> strips and \<^verbatim>\<open>\s\<close> matches, below code 256\<close>
  "isWhiteSpace c = ((of_char c :: nat) \<in> {9, 10, 11, 12, 13, 32, 160})"

definition trim :: "string \<Rightarrow> string" where
  "trim s = rev (dropWhile isWhiteSpace (rev (dropWhile isWhiteSpace s)))"

definition lowerChar :: "char \<Rightarrow> char" where
  "lowerChar c =
     (let n = (of_char c :: nat)
      in if (65 \<le> n \<and> n \<le> 90) \<or> (192 \<le> n \<and> n \<le> 222 \<and> n \<noteq> 215)
         then char_of (n + 32) else c)"

definition toLowerCase :: "string \<Rightarrow> string" where
  "toLowerCase s = map lowerChar s"

fun includes_js :: "string \<Rightarrow> string \<Rightarrow> bool" where
  "includes_js [] j = (j = [])"
| "includes_js (c # cs) j = (take (length j) (c # cs) = j \<or> includes_js cs j)"

fun splitWs :: "string \<Rightarrow> string \<Rightarrow> string list" where
  \<comment> \<open>\<^verbatim>\<open>s.split(/\s+/)\<close>; the second argument is the word read so far\<close>
  "splitWs [] cur = [cur]"
| "splitWs (c # cs) cur =
     (if isWhiteSpace c
      then (case cs of
              [] \<Rightarrow> cur # splitWs cs []
            | d # ds \<Rightarrow> if isWhiteSpace d then splitWs cs cur else cur # splitWs cs [])
      else splitWs cs (cur @ [c]))"

definition split_ws :: "string \<Rightarrow> string list" where
  "split_ws s = splitWs s []"

subsection \<open>Double-precision arithmetic of the host language\<close>

text \<open>
  A finite double is an integer of less than 54 bits times a power of two, the exponent
  at least -1074. \<open>fl x\<close> is the double nearest to \<open>x\<close>, a tie going to the even
  significand: \<open>ilog2\<close> finds the binade of \<open>x\<close>, \<open>pow2 e\<close> is the spacing of the
  doubles there (the subnormal spacing at the bottom) and \<open>rne\<close> rounds to the nearest
  multiple. Overflow to infinity is left out: the values computed here stay far below
  \<open>2 ^ 1024\<close>. An operation of the program is the exact operation followed by \<open>fl\<close>.
\<close>

fun bits :: "nat \<Rightarrow> nat" where
  \<comment> \<open>the length of the binary numeral\<close>
  "bits n = (if n = 0 then 0 else Suc (bits (n div 2)))"

definition pow2 :: "int \<Rightarrow> real" where
  "pow2 e = (if e \<ge> 0 then 2 ^ nat e else 1 / 2 ^ nat (- e))"

definition ilog2 :: "real \<Rightarrow> int" where
  \<comment> \<open>for positive \<open>x\<close>, the \<open>k\<close> with \<open>pow2 k \<le> x < pow2 (k + 1)\<close>\<close>
  "ilog2 x = (if x \<ge> 1 then int (bits (nat \<lfloor>x\<rfloor>)) - 1
              else - int (bits (nat (\<lceil>1 / x\<rceil> - 1))))"

definition rne :: "real \<Rightarrow> int" where
  \<comment> \<open>round to the nearest integer, halves to the even one\<close>
  "rne y = (let f = \<lfloor>y\<rfloor>; d = y - of_int f
            in if d < 1 / 2 then f else if d > 1 / 2 then f + 1
               else if even f then f else f + 1)"

definition fl :: "real \<Rightarrow> real" where
  "fl x = (if x = 0 then 0
           else let e = max (ilog2 \<bar>x\<bar> - 52) (- 1074)
                in of_int (rne (x / pow2 e)) * pow2 e)"

definition fadd :: "real \<Rightarrow> real \<Rightarrow> real" where
  "fadd a b = fl (a + b)"

definition fsub :: "real \<Rightarrow> real \<Rightarrow> real" where
  "fsub a b = fl (a - b)"

definition fmul :: "real \<Rightarrow> real \<Rightarrow> real" where
  "fmul a b = fl (a * b)"

definition fdiv :: "real \<Rightarrow> real \<Rightarrow> real" where
  "fdiv a b = fl (a / b)"

subsection \<open>Timing jitter and exponential backoff (anti-detection utilities)\<close>

definition round_js :: "real \<Rightarrow> int" where
  \<comment> \<open>\<^verbatim>\<open>Math.round\<close>: the nearest integer, halves rounded up\<close>
  "round_js x = \<lfloor>x + 1 / 2\<rfloor>"

definition jitter :: "real \<Rightarrow> real \<Rightarrow> real \<Rightarrow> int" where
  \<comment> \<open>the third argument is the outcome of \<^verbatim>\<open>Math.random()\<close>, in [0, 1)\<close>
  "jitter baseMs jitterPct rnd =
     (let factor = fadd 1 (fmul (fsub (fmul rnd 2) 1) (fdiv jitterPct 100))
      in round_js (fmul baseMs factor))"

definition backoffDelay :: "nat \<Rightarrow> real \<Rightarrow> int" where
  \<comment> \<open>the capped delay needs no rounding: it is \<open>1000 * 2 ^ n\<close> up to 256000, else the cap\<close>
  "backoffDelay errorCount rnd =
     (let base = 1000;
          cap = 5 * 60 * 1000;
          delay = min (base * 2 ^ errorCount) cap
      in jitter delay 20 rnd)"

subsection \<open>Fetched page data and the validity classifier\<close>

datatype stockStatus = in_stock | out_of_stock | limited | unknown

record variant =
  v_value :: string
  v_available :: bool

text \<open>
  The classifier reads three fields of its argument. It is called on the data parsed from
  a page and, in the revised engine, on an object built from the stored product.
\<close>

record candidate =
  d_name :: "string option"
  d_price :: "real option"      \<comment> \<open>\<open>None\<close>: not a number (absent or NaN)\<close>
  d_imageUrl :: "string option" \<comment> \<open>\<open>None\<close>: not a string\<close>

record pageData = candidate +
  d_stockStatus :: stockStatus
  d_variants :: "variant list"
  d_maxPurchaseQty :: "nat option"

definition junkNames :: "string list" where
  "junkNames =
     [''page not found'', ''not found'', ''404'', ''error'', ''sorry'', ''oops'',
      ''something went wrong'', ''access denied'', ''just a moment'', ''unknown product'']"

definition junkPhrases :: "string list" where
  "junkPhrases =
     [''page not found'', ''not found'', ''404'', ''error'', ''sorry'', ''oops'',
      ''something went wrong'', ''access denied'', ''just a moment'', ''unknown product'',
      ''can'' @ [CHR 0x27] @ ''t be found'', ''cannot be found'', ''no longer available'',
      ''doesn'' @ [CHR 0x27] @ ''t exist'', ''does not exist'', ''unavailable'',
      ''we couldn'' @ [CHR 0x27] @ ''t find'', ''we could not find'', ''kmart australia'',
      ''attention required'', ''please verify'', ''checking your browser'']"

definition fillerWords :: "string list" where
  "fillerWords =
     [''the'', ''you'', ''your'', ''this'', ''that'', ''for'', ''are'', ''was'', ''were'',
      ''our'', ''please'']"

definition hasPrice :: "real option \<Rightarrow> bool" where
  "hasPrice p = (case p of None \<Rightarrow> False | Some x \<Rightarrow> x > 0)"

definition hasImage :: "string option \<Rightarrow> bool" where
  "hasImage i = (case i of None \<Rightarrow> False | Some u \<Rightarrow> length u > 10)"

definition wordCount :: "string \<Rightarrow> nat" where
  "wordCount name = length (split_ws name)"

definition fillerCount :: "string \<Rightarrow> nat" where
  "fillerCount name = length (filter (\<lambda>w. w \<in> set fillerWords) (split_ws name))"

fun isValidProductData :: "engine \<Rightarrow> 'a candidate_scheme option \<Rightarrow> bool" where
  "isValidProductData e None = False"
| "isValidProductData ServiceWorker (Some data) =
     (case d_name data of
        None \<Rightarrow> False
      | Some n \<Rightarrow>
          if n = [] then False
          else let name = toLowerCase n
               in if list_ex (\<lambda>j. includes_js name j) junkNames then False
                  else if length (trim n) < 3 then False
                  else True)"
| "isValidProductData Revised (Some data) =
     (case d_name data of
        None \<Rightarrow> False
      | Some n \<Rightarrow>
          if n = [] \<or> length (trim n) < 3 then False
          else let name = trim (toLowerCase n)
               in if list_ex (\<lambda>j. includes_js name j) junkPhrases then False
                  else if \<not> hasPrice (d_price data) \<and> \<not> hasImage (d_imageUrl data) then False
                  else if wordCount name \<ge> 6 \<and> fillerCount name \<ge> 3 then False
                  else True)"

text \<open>The four rejection rules in the words of the specification.\<close>

definition rule_name_missing_or_short :: "'a candidate_scheme \<Rightarrow> bool" where
  "rule_name_missing_or_short data =
     (case d_name data of None \<Rightarrow> True | Some n \<Rightarrow> n = [] \<or> length (trim n) < 3)"

definition rule_junk_phrase :: "'a candidate_scheme \<Rightarrow> bool" where
  "rule_junk_phrase data =
     (case d_name data of
        None \<Rightarrow> False
      | Some n \<Rightarrow> list_ex (\<lambda>j. includes_js (toLowerCase n) j) junkPhrases)"

definition rule_no_price_no_image :: "'a candidate_scheme \<Rightarrow> bool" where
  "rule_no_price_no_image data =
     (\<not> (case d_price data of None \<Rightarrow> False | Some x \<Rightarrow> x > 0) \<and>
      \<not> (case d_imageUrl data of None \<Rightarrow> False | Some u \<Rightarrow> length u > 10))"

definition rule_sentence_like :: "'a candidate_scheme \<Rightarrow> bool" where
  "rule_sentence_like data =
     (case d_name data of
        None \<Rightarrow> False
      | Some n \<Rightarrow>
          let ws = split_ws (trim (toLowerCase n))
          in length ws \<ge> 6 \<and> length (filter (\<lambda>w. w \<in> set fillerWords) ws) \<ge> 3)"

definition rule_junk_name :: "'a candidate_scheme \<Rightarrow> bool" where
  \<comment> \<open>the phrase test of the older copy, on its list of ten names\<close>
  "rule_junk_name data =
     (case d_name data of
        None \<Rightarrow> False
      | Some n \<Rightarrow> list_ex (\<lambda>j. includes_js (toLowerCase n) j) junkNames)"

definition justAMoment :: candidate where
  "justAMoment = \<lparr> d_name = Some ''Just a moment...'', d_price = Some 0, d_imageUrl = Some [] \<rparr>"

subsection \<open>Products, settings and the store\<close>

datatype monitorState = active | paused | error

record snapshot =
  h_timestamp :: int
  h_price :: real
  h_stockStatus :: stockStatus
  h_variantsAvailable :: "string list"

record product =
  pid :: string                 \<comment> \<open>the field \<^verbatim>\<open>id\<close>\<close>
  url :: string
  name :: string
  imageUrl :: string
  currentPrice :: real
  previousPrice :: "real option"
  stockStatus :: stockStatus
  monitorState :: monitorState
  lastChecked :: "int option"
  lastInStock :: "int option"
  errorCount :: nat
  lastError :: "string option"
  autoAddToCart :: bool
  maxQuantity :: nat
  history :: "snapshot list"
  maxPurchaseQty :: "nat option"

text \<open>
  A partial update, the object that \<^verbatim>\<open>updateProduct\<close> spreads over the stored product:
  \<open>None\<close> is an absent key. A key that can hold \<^verbatim>\<open>null\<close> has a nested option.
\<close>

record updates =
  u_currentPrice :: "real option"
  u_stockStatus :: "stockStatus option"
  u_lastChecked :: "int option"
  u_errorCount :: "nat option"
  u_lastError :: "string option option"
  u_history :: "snapshot list option"
  u_name :: "string option"
  u_imageUrl :: "string option"
  u_maxPurchaseQty :: "nat option option"
  u_monitorState :: "monitorState option"
  u_lastInStock :: "int option"
  u_previousPrice :: "real option"

definition noUpdates :: updates where
  "noUpdates =
     \<lparr> u_currentPrice = None, u_stockStatus = None, u_lastChecked = None, u_errorCount = None,
       u_lastError = None, u_history = None, u_name = None, u_imageUrl = None,
       u_maxPurchaseQty = None, u_monitorState = None, u_lastInStock = None,
       u_previousPrice = None \<rparr>"

definition orKeep :: "'a option \<Rightarrow> 'a \<Rightarrow> 'a" where
  "orKeep u old = (case u of None \<Rightarrow> old | Some v \<Rightarrow> v)"

definition spread :: "product \<Rightarrow> updates \<Rightarrow> product" where
  \<comment> \<open>\<^verbatim>\<open>{ ...product, ...updates }\<close>\<close>
  "spread p u =
     p\<lparr> currentPrice := orKeep (u_currentPrice u) (currentPrice p),
        stockStatus := orKeep (u_stockStatus u) (stockStatus p),
        lastChecked := (case u_lastChecked u of None \<Rightarrow> lastChecked p | Some t \<Rightarrow> Some t),
        errorCount := orKeep (u_errorCount u) (errorCount p),
        lastError := orKeep (u_lastError u) (lastError p),
        history := orKeep (u_history u) (history p),
        name := orKeep (u_name u) (name p),
        imageUrl := orKeep (u_imageUrl u) (imageUrl p),
        maxPurchaseQty := orKeep (u_maxPurchaseQty u) (maxPurchaseQty p),
        monitorState := orKeep (u_monitorState u) (monitorState p),
        lastInStock := (case u_lastInStock u of None \<Rightarrow> lastInStock p | Some t \<Rightarrow> Some t),
        previousPrice := (case u_previousPrice u of None \<Rightarrow> previousPrice p | Some x \<Rightarrow> Some x) \<rparr>"

record settings =
  jitterPercent :: real
  globalAutoAdd :: bool
  notificationsEnabled :: bool
  audioAlertEnabled :: bool
  audioVolume :: real
  priceDropThreshold :: real
  webhookUrl :: string
  webhookEnabled :: bool
  maxHistoryPerProduct :: nat

definition DEFAULT_SETTINGS :: settings where
  "DEFAULT_SETTINGS =
     \<lparr> jitterPercent = 15, globalAutoAdd = False, notificationsEnabled = True,
       audioAlertEnabled = True, audioVolume = 7 / 10, priceDropThreshold = 10,
       webhookUrl = [], webhookEnabled = False, maxHistoryPerProduct = 500 \<rparr>"

subsection \<open>Log entries and calls to the collaborators\<close>

datatype logEvent =
  ev_error | ev_check | ev_in_stock | ev_out_of_stock | ev_price_change | ev_add_to_cart

text \<open>
  The \<^verbatim>\<open>details\<close> text of a log entry: a plain text where the source concatenates
  strings, the template with its arguments where the source formats numbers.
\<close>

datatype details =
    Text string
  | Recovered
  | BackInStock string real
  | NowOutOfStock string
  | PriceDropped real real real
  | Checked stockStatus real
  | CartTriggered string
  | CartFailed string
  | CartSucceeded string "nat option" "nat option" "string option" nat
  | CartGaveUp nat string

record logEntry =
  l_timestamp :: int
  l_productId :: string
  l_event :: logEvent
  l_details :: details
  l_oldPrice :: "real option"
  l_newPrice :: "real option"

definition entry :: "int \<Rightarrow> string \<Rightarrow> logEvent \<Rightarrow> details \<Rightarrow> logEntry" where
  "entry t i ev d =
     \<lparr> l_timestamp = t, l_productId = i, l_event = ev, l_details = d,
       l_oldPrice = None, l_newPrice = None \<rparr>"

datatype notice = TakenDown nat | HittingErrors nat string

datatype webhookEvent = hook_in_stock | hook_price_drop

datatype call =
    Logged logEntry
  | NotifyInStock product
  | NotifyPriceDrop product real real
  | NotifyError product notice
  | PlayAudioAlert real
  | SendWebhook string product webhookEvent "real option"
  | Sleep int
  | FetchProductData string
  | QueryTabs string
  | WaitForTabLoad
  | SendAddToCart string "nat" bool
  | RemoveTab
  | RotateUserAgent
  | CloseMonitorTab
  | UpdateBadge nat

record rateLimiter =
  timestamps :: "int list"
  maxRequests :: nat
  windowMs :: int

text \<open>
  The state the engine works on: the stored products, settings and log, the module-level
  rate limiter and single-flight flag, the clock read by \<^verbatim>\<open>Date.now()\<close>, the number of
  \<^verbatim>\<open>Math.random()\<close> draws made so far, and the calls made so far in order. The clock
  advances by the engine's own sleeps; the time spent inside a browser call is not
  modelled.
\<close>

record world =
  products :: "product list"
  stored_settings :: settings
  logs :: "logEntry list"
  RATE_LIMITER :: rateLimiter
  isChecking :: bool
  clock :: int
  draws :: nat
  calls :: "call list"

datatype result = Returned world | Threw string world

definition andThen :: "result \<Rightarrow> (world \<Rightarrow> result) \<Rightarrow> result" where
  "andThen r f = (case r of Returned w \<Rightarrow> f w | Threw err w \<Rightarrow> Threw err w)"

definition call :: "call \<Rightarrow> world \<Rightarrow> world" where
  "call c w = w\<lparr> calls := calls w @ [c] \<rparr>"

definition sleep :: "int \<Rightarrow> world \<Rightarrow> world" where
  "sleep ms w = call (Sleep ms) (w\<lparr> clock := clock w + max 0 ms \<rparr>)"

fun findIndex :: "('a \<Rightarrow> bool) \<Rightarrow> 'a list \<Rightarrow> nat option" where
  "findIndex P [] = None"
| "findIndex P (x # xs) =
     (if P x then Some 0 else (case findIndex P xs of None \<Rightarrow> None | Some i \<Rightarrow> Some (Suc i)))"

definition getProduct :: "string \<Rightarrow> world \<Rightarrow> product option" where
  "getProduct i w = find (\<lambda>p. pid p = i) (products w)"

definition updateProduct :: "string \<Rightarrow> updates \<Rightarrow> world \<Rightarrow> result" where
  "updateProduct i u w =
     (case findIndex (\<lambda>p. pid p = i) (products w) of
        None \<Rightarrow> Threw (''Product '' @ i @ '' not found.'') w
      | Some idx \<Rightarrow>
          Returned (w\<lparr> products := (products w)[idx := spread (products w ! idx) u] \<rparr>))"

definition MAX_LOGS :: nat where
  "MAX_LOGS = 5000"

definition addLog :: "logEntry \<Rightarrow> world \<Rightarrow> world" where
  "addLog e w =
     call (Logged e)
       (w\<lparr> logs := (let l = e # logs w in if length l > MAX_LOGS then take MAX_LOGS l else l) \<rparr>)"

subsection \<open>The collaborators as inputs\<close>

datatype fetchResult = FetchFailed string | Fetched pageData

record cartResponse =
  r_success :: bool
  r_quantityRequested :: "nat option"
  r_pageMax :: "nat option"
  r_warning :: "string option"
  r_error :: "string option"

text \<open>
  What the browser does in one add-to-cart attempt: the tab query or the navigation
  rejects before a tab is ready; or a tab is ready (created by the attempt or already
  open) and sending the message rejects; or the content script replies.
\<close>

datatype attemptOutcome =
    AcquireThrew string
  | SendThrew bool string
  | Replied bool "cartResponse option"

text \<open>
  \<open>nameFromUrl\<close> depends on the browser's URL parser and is taken as given;
  \<open>fetchProductData\<close> stands for the tab-based page fetch at a given time;
  \<open>addToCart\<close> is the outcome of the n-th attempt for a product; \<open>rand\<close> is the
  sequence of \<^verbatim>\<open>Math.random()\<close> outcomes.
\<close>

record env =
  nameFromUrl :: "string \<Rightarrow> string"
  fetchProductData :: "string \<Rightarrow> int \<Rightarrow> fetchResult"
  addToCart :: "product \<Rightarrow> nat \<Rightarrow> attemptOutcome"
  rand :: "nat \<Rightarrow> real"

subsection \<open>Add-to-cart automation\<close>

definition ADD_CART_MAX_RETRIES :: nat where
  "ADD_CART_MAX_RETRIES = 3"

definition ADD_CART_BASE_DELAY :: int where
  "ADD_CART_BASE_DELAY = 3000"

datatype attemptEnd = Succeeded world | Failed string world

definition tabReady :: "product \<Rightarrow> world \<Rightarrow> world" where
  \<comment> \<open>the tab is navigated or created, then awaited; the message is sent\<close>
  "tabReady p w =
     call (SendAddToCart (pid p) (maxQuantity p) True) (sleep 2000 (call WaitForTabLoad w))"

definition closeCreated :: "bool \<Rightarrow> world \<Rightarrow> world" where
  "closeCreated createdTab w = (if createdTab then call RemoveTab w else w)"

definition cartAttempt :: "env \<Rightarrow> product \<Rightarrow> nat \<Rightarrow> world \<Rightarrow> attemptEnd" where
  \<comment> \<open>the body of the retry loop up to the end of its \<^verbatim>\<open>try\<close>/\<^verbatim>\<open>catch\<close> and the tab clean-up\<close>
  "cartAttempt en p attempt w =
     (let w0 = call (QueryTabs (url p @ ''*'')) w
      in case addToCart en p attempt of
           AcquireThrew msg \<Rightarrow> Failed msg w0
         | SendThrew createdTab msg \<Rightarrow> Failed msg (closeCreated createdTab (tabReady p w0))
         | Replied createdTab response \<Rightarrow>
             (let w1 = tabReady p w0
              in case response of
                   None \<Rightarrow> Failed ''Content script returned failure'' (closeCreated createdTab w1)
                 | Some r \<Rightarrow>
                     if r_success r
                     then (let w2 = addLog (entry (clock w1) (pid p) ev_add_to_cart
                                      (CartSucceeded (name p) (r_quantityRequested r) (r_pageMax r)
                                         (r_warning r) attempt)) w1
                           in case (case r_pageMax r of
                                      None \<Rightarrow> Returned w2
                                    | Some m \<Rightarrow>
                                        if m > 0
                                        then updateProduct (pid p)
                                               (noUpdates\<lparr> u_maxPurchaseQty := Some (Some m) \<rparr>) w2
                                        else Returned w2) of
                                Returned w3 \<Rightarrow> Succeeded (closeCreated createdTab w3)
                              | Threw err w3 \<Rightarrow> Failed err (closeCreated createdTab w3))
                     else Failed (case r_error r of
                                    None \<Rightarrow> ''Content script returned failure''
                                  | Some m \<Rightarrow> if m = [] then ''Content script returned failure'' else m)
                            (closeCreated createdTab w1)))"

function retryLoop :: "env \<Rightarrow> product \<Rightarrow> nat \<Rightarrow> string \<Rightarrow> world \<Rightarrow> world" where
  "retryLoop en p attempt lastErr w =
     (if attempt \<le> ADD_CART_MAX_RETRIES
      then (case cartAttempt en p attempt w of
              Succeeded w' \<Rightarrow> w'
            | Failed err w' \<Rightarrow>
                retryLoop en p (attempt + 1) err
                  (if attempt < ADD_CART_MAX_RETRIES
                   then sleep (ADD_CART_BASE_DELAY * 2 ^ (attempt - 1)) w'
                   else w'))
      else addLog (entry (clock w) (pid p) ev_error (CartGaveUp ADD_CART_MAX_RETRIES lastErr)) w)"
  by pat_completeness auto
termination
  by (relation "measure (\<lambda>(en, p, attempt, lastErr, w). Suc ADD_CART_MAX_RETRIES - attempt)") auto

definition singleAttempt :: "env \<Rightarrow> product \<Rightarrow> world \<Rightarrow> world" where
  \<comment> \<open>the service worker's one-shot version: an open tab is used as it is, the reply is not read\<close>
  "singleAttempt en p w =
     (let w0 = call (QueryTabs (url p @ ''*'')) w;
          ready = (\<lambda>createdTab. call (SendAddToCart (pid p) (maxQuantity p) False)
                     (if createdTab then sleep 2000 (call WaitForTabLoad w0) else w0))
      in case addToCart en p 1 of
           AcquireThrew msg \<Rightarrow>
             addLog (entry (clock w0) (pid p) ev_error (CartFailed msg)) w0
         | SendThrew createdTab msg \<Rightarrow>
             (let w1 = ready createdTab
              in addLog (entry (clock w1) (pid p) ev_error (CartFailed msg)) w1)
         | Replied createdTab response \<Rightarrow>
             (let w1 = ready createdTab
              in addLog (entry (clock w1) (pid p) ev_add_to_cart (CartTriggered (name p))) w1))"

definition triggerAddToCart :: "env \<Rightarrow> engine \<Rightarrow> product \<Rightarrow> world \<Rightarrow> world" where
  "triggerAddToCart en e p w =
     (case e of ServiceWorker \<Rightarrow> singleAttempt en p w | Revised \<Rightarrow> retryLoop en p 1 [] w)"

subsection \<open>Checking a single product\<close>

definition invalidDataMsg :: "string option \<Rightarrow> string" where
  "invalidDataMsg n =
     ''Page returned invalid data (possible 404 or taken down): '' @ [CHR 0x22] @
     (case n of None \<Rightarrow> ''empty'' | Some s \<Rightarrow> if s = [] then ''empty'' else s) @ [CHR 0x22]"

definition storedCandidate :: "product \<Rightarrow> candidate" where
  "storedCandidate p =
     \<lparr> d_name = Some (name p), d_price = Some (currentPrice p), d_imageUrl = Some (imageUrl p) \<rparr>"

definition nameFix :: "env \<Rightarrow> engine \<Rightarrow> product \<Rightarrow> string option" where
  "nameFix en e p =
     (case e of
        ServiceWorker \<Rightarrow> None
      | Revised \<Rightarrow>
          if \<not> isValidProductData Revised (Some (storedCandidate p))
          then Some (nameFromUrl en (url p)) else None)"

definition junkCheck ::
  "env \<Rightarrow> engine \<Rightarrow> product \<Rightarrow> settings \<Rightarrow> int \<Rightarrow> pageData \<Rightarrow> world \<Rightarrow> result" where
  "junkCheck en e p s now data w =
     (let errorMsg = invalidDataMsg (d_name data)
      in andThen
           (updateProduct (pid p)
              (noUpdates\<lparr> u_lastChecked := Some now,
                          u_errorCount := Some (errorCount p + 1),
                          u_lastError := Some (Some errorMsg),
                          u_name := nameFix en e p \<rparr>) w)
           (\<lambda>w1. let w2 = addLog (entry now (pid p) ev_error (Text errorMsg)) w1
                 in Returned
                      (if errorCount p + 1 = 10 \<and> notificationsEnabled s
                       then call (NotifyError p (TakenDown (errorCount p + 1))) w2
                       else w2)))"

definition newPriceOf :: "pageData \<Rightarrow> real \<Rightarrow> real" where
  \<comment> \<open>\<^verbatim>\<open>data.price > 0 ? data.price : oldPrice\<close>\<close>
  "newPriceOf data oldPrice =
     (case d_price data of None \<Rightarrow> oldPrice | Some x \<Rightarrow> if x > 0 then x else oldPrice)"

definition newSnapshot :: "product \<Rightarrow> int \<Rightarrow> pageData \<Rightarrow> snapshot" where
  "newSnapshot p now data =
     \<lparr> h_timestamp = now,
       h_price = newPriceOf data (currentPrice p),
       h_stockStatus = d_stockStatus data,
       h_variantsAvailable = map v_value (filter v_available (d_variants data)) \<rparr>"

definition newHistory :: "product \<Rightarrow> settings \<Rightarrow> int \<Rightarrow> pageData \<Rightarrow> snapshot list" where
  "newHistory p s now data =
     (let h = newSnapshot p now data # history p
      in if length h > maxHistoryPerProduct s then take (maxHistoryPerProduct s) h else h)"

definition baseUpdates :: "engine \<Rightarrow> product \<Rightarrow> settings \<Rightarrow> int \<Rightarrow> pageData \<Rightarrow> updates" where
  "baseUpdates e p s now data =
     (let safeName = (case d_name data of
                        None \<Rightarrow> name p
                      | Some n \<Rightarrow> if n \<noteq> [] \<and> length n > 3 then n else name p);
          safeImage = (case d_imageUrl data of
                         None \<Rightarrow> imageUrl p
                       | Some i \<Rightarrow> if i \<noteq> [] then i else imageUrl p)
      in noUpdates
           \<lparr> u_currentPrice := Some (newPriceOf data (currentPrice p)),
             u_stockStatus := Some (d_stockStatus data),
             u_lastChecked := Some now,
             u_errorCount := Some 0,
             u_lastError := Some None,
             u_history := Some (newHistory p s now data),
             u_name := Some safeName,
             u_imageUrl := Some safeImage,
             u_maxPurchaseQty :=
               (case e of
                  ServiceWorker \<Rightarrow> None
                | Revised \<Rightarrow>
                    Some (case d_maxPurchaseQty data of
                            None \<Rightarrow> maxPurchaseQty p
                          | Some q \<Rightarrow> Some q)) \<rparr>)"

definition recoveryStep :: "product \<Rightarrow> int \<Rightarrow> updates \<times> world \<Rightarrow> updates \<times> world" where
  "recoveryStep p now uw =
     (case uw of (u, w) \<Rightarrow>
        if monitorState p = error
        then (u\<lparr> u_monitorState := Some active \<rparr>,
              addLog (entry now (pid p) ev_check Recovered) w)
        else (u, w))"

definition restockStep ::
  "env \<Rightarrow> engine \<Rightarrow> product \<Rightarrow> settings \<Rightarrow> int \<Rightarrow> pageData \<Rightarrow> updates \<times> world
     \<Rightarrow> updates \<times> world" where
  "restockStep en e p s now data uw =
     (case uw of (u, w) \<Rightarrow>
        if d_stockStatus data = in_stock \<and>
           (stockStatus p = out_of_stock \<or> stockStatus p = unknown)
        then (let u1 = u\<lparr> u_lastInStock := Some now \<rparr>;
                  w1 = addLog (entry now (pid p) ev_in_stock
                          (BackInStock (name p) (newPriceOf data (currentPrice p)))) w;
                  w2 = (if notificationsEnabled s then call (NotifyInStock (spread p u1)) w1 else w1);
                  w3 = (if audioAlertEnabled s then call (PlayAudioAlert (audioVolume s)) w2 else w2);
                  w4 = (if webhookEnabled s \<and> webhookUrl s \<noteq> []
                        then call (SendWebhook (webhookUrl s) (spread p u1) hook_in_stock None) w3
                        else w3);
                  w5 = (if autoAddToCart p \<or> globalAutoAdd s then triggerAddToCart en e p w4 else w4)
              in (u1, w5))
        else (u, w))"

definition soldOutStep :: "product \<Rightarrow> int \<Rightarrow> pageData \<Rightarrow> updates \<times> world \<Rightarrow> updates \<times> world" where
  "soldOutStep p now data uw =
     (case uw of (u, w) \<Rightarrow>
        if d_stockStatus data = out_of_stock \<and> stockStatus p = in_stock
        then (u, addLog (entry now (pid p) ev_out_of_stock (NowOutOfStock (name p))) w)
        else (u, w))"

definition priceDropStep ::
  "product \<Rightarrow> settings \<Rightarrow> int \<Rightarrow> pageData \<Rightarrow> updates \<times> world \<Rightarrow> updates \<times> world" where
  "priceDropStep p s now data uw =
     (case uw of (u, w) \<Rightarrow>
        let oldPrice = currentPrice p; newPrice = newPriceOf data oldPrice
        in if newPrice > 0 \<and> oldPrice > 0 \<and> newPrice < oldPrice
           then (let dropPct = fmul (fdiv (fsub oldPrice newPrice) oldPrice) 100;
                     u1 = u\<lparr> u_previousPrice := Some oldPrice \<rparr>
                 in if dropPct \<ge> priceDropThreshold s
                    then (let w1 = addLog ((entry now (pid p) ev_price_change
                                              (PriceDropped dropPct oldPrice newPrice))
                                            \<lparr> l_oldPrice := Some oldPrice,
                                              l_newPrice := Some newPrice \<rparr>) w;
                              w2 = (if notificationsEnabled s
                                    then call (NotifyPriceDrop (spread p u1) oldPrice newPrice) w1
                                    else w1);
                              w3 = (if audioAlertEnabled s
                                    then call (PlayAudioAlert (audioVolume s)) w2 else w2);
                              w4 = (if webhookEnabled s \<and> webhookUrl s \<noteq> []
                                    then call (SendWebhook (webhookUrl s) (spread p u1)
                                                 hook_price_drop (Some oldPrice)) w3
                                    else w3)
                          in (u1, w4))
                    else (u1, w))
           else (u, w))"

definition validSteps ::
  "env \<Rightarrow> engine \<Rightarrow> product \<Rightarrow> settings \<Rightarrow> int \<Rightarrow> pageData \<Rightarrow> world \<Rightarrow> updates \<times> world" where
  \<comment> \<open>the valid-data branch up to, and without, the final \<^verbatim>\<open>updateProduct\<close>\<close>
  "validSteps en e p s now data w =
     priceDropStep p s now data
       (soldOutStep p now data
          (restockStep en e p s now data
             (recoveryStep p now (baseUpdates e p s now data, w))))"

definition validCheck ::
  "env \<Rightarrow> engine \<Rightarrow> product \<Rightarrow> settings \<Rightarrow> int \<Rightarrow> pageData \<Rightarrow> world \<Rightarrow> result" where
  "validCheck en e p s now data w =
     (case validSteps en e p s now data w of (u, w1) \<Rightarrow>
        andThen (updateProduct (pid p) u w1)
          (\<lambda>w2. Returned (addLog (entry now (pid p) ev_check
                     (Checked (d_stockStatus data) (newPriceOf data (currentPrice p)))) w2)))"

definition failedCheck :: "product \<Rightarrow> settings \<Rightarrow> int \<Rightarrow> string \<Rightarrow> world \<Rightarrow> result" where
  \<comment> \<open>the \<^verbatim>\<open>catch\<close> block of \<^verbatim>\<open>checkProduct\<close>\<close>
  "failedCheck p s now errorMsg w =
     andThen
       (updateProduct (pid p)
          (noUpdates\<lparr> u_lastChecked := Some now,
                      u_errorCount := Some (errorCount p + 1),
                      u_lastError := Some (Some errorMsg) \<rparr>) w)
       (\<lambda>w1. let w2 = addLog (entry now (pid p) ev_error (Text errorMsg)) w1
             in if errorCount p + 1 = 5
                then andThen
                       (updateProduct (pid p) (noUpdates\<lparr> u_monitorState := Some error \<rparr>) w2)
                       (\<lambda>w3. Returned
                                (if notificationsEnabled s
                                 then call (NotifyError p (HittingErrors (errorCount p + 1) errorMsg)) w3
                                 else w3))
                else Returned w2)"

definition checkProduct ::
  "env \<Rightarrow> engine \<Rightarrow> product \<Rightarrow> settings \<Rightarrow> fetchResult \<Rightarrow> world \<Rightarrow> result" where
  \<comment> \<open>the fifth argument is what \<^verbatim>\<open>fetchProductData(product.url)\<close> yields\<close>
  "checkProduct en e p s fetched w =
     (let now = clock w;
          w0 = call (FetchProductData (url p)) w
      in case (case fetched of
                 FetchFailed msg \<Rightarrow> Threw msg w0
               | Fetched data \<Rightarrow>
                   if \<not> isValidProductData e (Some data)
                   then junkCheck en e p s now data w0
                   else validCheck en e p s now data w0) of
           Returned w1 \<Rightarrow> Returned w1
         | Threw err w1 \<Rightarrow> failedCheck p s now err w1)"

subsection \<open>Rate limiter and the monitoring tick\<close>

definition canRequest :: "int \<Rightarrow> rateLimiter \<Rightarrow> bool \<times> rateLimiter" where
  "canRequest now rl =
     (let ts = filter (\<lambda>t. now - t < windowMs rl) (timestamps rl)
      in (length ts < maxRequests rl, rl\<lparr> timestamps := ts \<rparr>))"

definition record_js :: "int \<Rightarrow> rateLimiter \<Rightarrow> rateLimiter" where
  \<comment> \<open>the method \<^verbatim>\<open>record()\<close>\<close>
  "record_js now rl = rl\<lparr> timestamps := timestamps rl @ [now] \<rparr>"

definition waitTime :: "int \<Rightarrow> rateLimiter \<Rightarrow> int \<times> rateLimiter" where
  \<comment> \<open>with no timestamp at all the source computes NaN, which the timer treats as 0\<close>
  "waitTime now rl =
     (case canRequest now rl of (ok, rl') \<Rightarrow>
        if ok then (0, rl')
        else (case timestamps rl' of
                [] \<Rightarrow> (0, rl')
              | oldest # rest \<Rightarrow> (oldest + windowMs rl' - now, rl')))"

definition eligible :: "product \<Rightarrow> bool" where
  "eligible p = (monitorState p = active \<or> monitorState p = error)"

definition nextRandom :: "env \<Rightarrow> world \<Rightarrow> real \<times> world" where
  "nextRandom en w = (rand en (draws w), w\<lparr> draws := Suc (draws w) \<rparr>)"

definition limiterGate :: "world \<Rightarrow> world" where
  "limiterGate w =
     (case canRequest (clock w) (RATE_LIMITER w) of (ok, rl) \<Rightarrow>
        if ok then w\<lparr> RATE_LIMITER := rl \<rparr>
        else (case waitTime (clock w) rl of (wait, rl') \<Rightarrow>
                sleep wait (w\<lparr> RATE_LIMITER := rl' \<rparr>)))"

definition notYetDue :: "env \<Rightarrow> product \<Rightarrow> world \<Rightarrow> bool \<times> world" where
  \<comment> \<open>the backoff gate: true when the product is skipped in this tick\<close>
  "notYetDue en p w =
     (if errorCount p > 0
      then (let minDelay = (if monitorState p = error then 5 * 60 * 1000 else 0)
            in case nextRandom en w of (r, w') \<Rightarrow>
                 let delay = max (backoffDelay (errorCount p) r) minDelay;
                     since = clock w' - (case lastChecked p of None \<Rightarrow> 0 | Some t \<Rightarrow> t)
                 in (since < delay, w'))
      else (False, w))"

definition tickProduct :: "env \<Rightarrow> engine \<Rightarrow> settings \<Rightarrow> product \<Rightarrow> world \<Rightarrow> world" where
  \<comment> \<open>one iteration of the loop over the eligible products\<close>
  "tickProduct en e s p w =
     (case notYetDue en p (limiterGate w) of (skip, w1) \<Rightarrow>
        if skip then w1
        else (let w2 = (case checkProduct en e p s (fetchProductData en (url p) (clock w1)) w1 of
                          Returned w' \<Rightarrow>
                            w'\<lparr> RATE_LIMITER := record_js (clock w') (RATE_LIMITER w') \<rparr>
                        | Threw err w' \<Rightarrow> w')
              in case nextRandom en w2 of (r, w3) \<Rightarrow>
                   sleep (jitter 2000 (jitterPercent s) r) w3))"

fun monitorLoop :: "env \<Rightarrow> engine \<Rightarrow> settings \<Rightarrow> product list \<Rightarrow> world \<Rightarrow> world" where
  "monitorLoop en e s [] w = w"
| "monitorLoop en e s (p # ps) w = monitorLoop en e s ps (tickProduct en e s p w)"

definition refreshBadge :: "world \<Rightarrow> world" where
  "refreshBadge w =
     call (UpdateBadge
             (length (filter (\<lambda>p. monitorState p = active \<and> stockStatus p = in_stock)
                        (products w)))) w"

definition monitorTick :: "env \<Rightarrow> engine \<Rightarrow> world \<Rightarrow> world" where
  \<comment> \<open>the rotation of the user agent is recorded as a call; its own random draws are left out\<close>
  "monitorTick en e w =
     (if isChecking w then w
      else (let w0 = w\<lparr> isChecking := True \<rparr>;
                s = stored_settings w0;
                el = filter eligible (products w0)
            in if el = [] then w0\<lparr> isChecking := False \<rparr>
               else (case nextRandom en w0 of (r, w1) \<Rightarrow>
                       let w2 = (if r < 1 / 10 then call RotateUserAgent w1 else w1);
                           w3 = monitorLoop en e s el w2;
                           w4 = refreshBadge (call CloseMonitorTab w3)
                       in w4\<lparr> isChecking := False \<rparr>)))"

definition RATE_LIMITER_init :: rateLimiter where
  \<comment> \<open>\<^verbatim>\<open>new RateLimiter(20, 60000)\<close>\<close>
  "RATE_LIMITER_init = \<lparr> timestamps = [], maxRequests = 20, windowMs = 60000 \<rparr>"

subsection \<open>Manual check of one product\<close>

definition checkNow :: "env \<Rightarrow> engine \<Rightarrow> string \<Rightarrow> world \<Rightarrow> result" where
  \<comment> \<open>the message \<^verbatim>\<open>CHECK_NOW\<close>: look the product up, load the settings, check, refresh the badge\<close>
  "checkNow en e i w =
     (case getProduct i w of
        None \<Rightarrow> Returned w
      | Some p \<Rightarrow>
          andThen (checkProduct en e p (stored_settings w) (fetchProductData en (url p) (clock w)) w)
            (\<lambda>w'. Returned (refreshBadge w')))"

fun times :: "nat \<Rightarrow> (world \<Rightarrow> result) \<Rightarrow> world \<Rightarrow> result" where
  "times 0 f w = Returned w"
| "times (Suc n) f w = andThen (f w) (times n f)"

subsection \<open>Observations on a run\<close>

text \<open>
  The calls a run has added, the log entries among them, and the relation between two
  states of the store that differ at most in the \<open>maxPurchaseQty\<close> of products.
\<close>

fun loggedEntries :: "call list \<Rightarrow> logEntry list" where
  "loggedEntries [] = []"
| "loggedEntries (Logged e # cs) = e # loggedEntries cs"
| "loggedEntries (c # cs) = loggedEntries cs"

definition eventsOf :: "logEvent \<Rightarrow> call list \<Rightarrow> logEntry list" where
  "eventsOf ev cs = filter (\<lambda>e. l_event e = ev) (loggedEntries cs)"

definition emitted :: "world \<Rightarrow> world \<Rightarrow> call list" where
  "emitted w w' = drop (length (calls w)) (calls w')"

definition logged :: "world \<Rightarrow> world \<Rightarrow> logEntry list \<Rightarrow> bool" where
  "logged w w' es = (\<exists>new. calls w' = calls w @ new \<and> loggedEntries new = es)"

fun sleeps :: "call list \<Rightarrow> int list" where
  "sleeps [] = []"
| "sleeps (Sleep ms # cs) = ms # sleeps cs"
| "sleeps (c # cs) = sleeps cs"

fun queries :: "call list \<Rightarrow> nat" where
  "queries [] = 0"
| "queries (QueryTabs u # cs) = Suc (queries cs)"
| "queries (c # cs) = queries cs"

fun endWorld :: "attemptEnd \<Rightarrow> world" where
  "endWorld (Succeeded w) = w"
| "endWorld (Failed err w) = w"

definition upToQty :: "world \<Rightarrow> world \<Rightarrow> bool" where
  "upToQty w w' =
     list_all2 (\<lambda>a b. b = a\<lparr> maxPurchaseQty := maxPurchaseQty b \<rparr>) (products w) (products w')"

text \<open>The conditions and the log entries of the valid branch, and the update objects of the two error paths.\<close>

definition restocked :: "product \<Rightarrow> pageData \<Rightarrow> bool" where
  "restocked p data =
     (d_stockStatus data = in_stock \<and> (stockStatus p = out_of_stock \<or> stockStatus p = unknown))"

definition soldOut :: "product \<Rightarrow> pageData \<Rightarrow> bool" where
  "soldOut p data = (d_stockStatus data = out_of_stock \<and> stockStatus p = in_stock)"

definition priceFell :: "product \<Rightarrow> pageData \<Rightarrow> bool" where
  "priceFell p data =
     (newPriceOf data (currentPrice p) > 0 \<and> currentPrice p > 0 \<and>
      newPriceOf data (currentPrice p) < currentPrice p)"

definition dropPercent :: "product \<Rightarrow> pageData \<Rightarrow> real" where
  "dropPercent p data =
     fmul (fdiv (fsub (currentPrice p) (newPriceOf data (currentPrice p))) (currentPrice p)) 100"

definition restockEntry :: "product \<Rightarrow> int \<Rightarrow> pageData \<Rightarrow> logEntry" where
  "restockEntry p now data =
     entry now (pid p) ev_in_stock (BackInStock (name p) (newPriceOf data (currentPrice p)))"

definition priceDropEntry :: "product \<Rightarrow> int \<Rightarrow> pageData \<Rightarrow> logEntry" where
  "priceDropEntry p now data =
     (entry now (pid p) ev_price_change
        (PriceDropped (dropPercent p data) (currentPrice p) (newPriceOf data (currentPrice p))))
     \<lparr> l_oldPrice := Some (currentPrice p),
       l_newPrice := Some (newPriceOf data (currentPrice p)) \<rparr>"

definition validEntries :: "product \<Rightarrow> settings \<Rightarrow> int \<Rightarrow> pageData \<Rightarrow> logEntry list \<Rightarrow> logEntry list" where
  \<comment> \<open>the entries a valid check writes, oldest first; the last argument is what the add-to-cart run logs\<close>
  "validEntries p s now data cart =
     (if monitorState p = error then [entry now (pid p) ev_check Recovered] else []) @
     (if restocked p data then restockEntry p now data # cart else []) @
     (if soldOut p data then [entry now (pid p) ev_out_of_stock (NowOutOfStock (name p))] else []) @
     (if priceFell p data \<and> dropPercent p data \<ge> priceDropThreshold s
      then [priceDropEntry p now data] else []) @
     [entry now (pid p) ev_check (Checked (d_stockStatus data) (newPriceOf data (currentPrice p)))]"

definition junkUpdates :: "env \<Rightarrow> engine \<Rightarrow> product \<Rightarrow> int \<Rightarrow> pageData \<Rightarrow> updates" where
  "junkUpdates en e p now data =
     noUpdates\<lparr> u_lastChecked := Some now,
                u_errorCount := Some (errorCount p + 1),
                u_lastError := Some (Some (invalidDataMsg (d_name data))),
                u_name := nameFix en e p \<rparr>"

definition failUpdates :: "product \<Rightarrow> int \<Rightarrow> string \<Rightarrow> updates" where
  "failUpdates p now msg =
     noUpdates\<lparr> u_lastChecked := Some now, u_errorCount := Some (errorCount p + 1),
                u_lastError := Some (Some msg) \<rparr>"

subsection \<open>Example values\<close>

definition exampleProduct :: product where
  "exampleProduct =
     \<lparr> pid = ''p1'', url = ''https://www.kmart.com.au/product/toy-robot-43718702/'',
       name = ''Toy Robot'', imageUrl = ''https://www.kmart.com.au/img/toy-robot.jpg'',
       currentPrice = 2999 / 100, previousPrice = None, stockStatus = out_of_stock,
       monitorState = active, lastChecked = None, lastInStock = None, errorCount = 0,
       lastError = None, autoAddToCart = False, maxQuantity = 1, history = [],
       maxPurchaseQty = None \<rparr>"

definition erroringProduct :: product where
  "erroringProduct = exampleProduct\<lparr> errorCount := 4, lastError := Some ''tab crashed'' \<rparr>"

definition degradedProduct :: product where
  "degradedProduct =
     exampleProduct\<lparr> errorCount := 7, lastError := Some ''tab crashed'', monitorState := error \<rparr>"

definition validPage :: pageData where
  "validPage =
     \<lparr> d_name = Some ''Toy Robot'', d_price = Some (2499 / 100),
       d_imageUrl = Some ''https://www.kmart.com.au/img/toy-robot.jpg'',
       d_stockStatus = in_stock, d_variants = [], d_maxPurchaseQty = None \<rparr>"

definition unpricedPage :: pageData where
  "unpricedPage = validPage\<lparr> d_price := Some 0 \<rparr>"

definition junkPage :: pageData where
  "junkPage =
     \<lparr> d_name = Some ''Just a moment...'', d_price = Some 0, d_imageUrl = Some [],
       d_stockStatus = unknown, d_variants = [], d_maxPurchaseQty = None \<rparr>"

definition exampleEnv :: env where
  "exampleEnv =
     \<lparr> nameFromUrl = (\<lambda>u. ''Toy Robot''),
       fetchProductData = (\<lambda>u t. Fetched junkPage),
       addToCart = (\<lambda>p n. AcquireThrew ''No tab''),
       rand = (\<lambda>n. 1 / 2) \<rparr>"

definition exampleWorld :: world where
  "exampleWorld =
     \<lparr> products = [exampleProduct], stored_settings = DEFAULT_SETTINGS, logs = [],
       RATE_LIMITER = RATE_LIMITER_init, isChecking = False, clock = 1000000, draws = 0,
       calls = [] \<rparr>"

definition worldOf :: "product \<Rightarrow> world" where
  "worldOf p = exampleWorld\<lparr> products := [p] \<rparr>"

definition bareCandidate :: candidate where
  "bareCandidate = \<lparr> d_name = Some ''Toy Robot'', d_price = Some 0, d_imageUrl = Some [] \<rparr>"




section \<open>Properties\<close>

subsection \<open>Substring search and trimming\<close>

lemma includes_js_iff: "includes_js s j \<longleftrightarrow> (\<exists>a b. s = a @ j @ b)"
proof (induction s)
  case Nil
  then show ?case by auto
next
  case (Cons c cs)
  show ?case
  proof
    assume "includes_js (c # cs) j"
    then consider "take (length j) (c # cs) = j" | "includes_js cs j" by auto
    then show "\<exists>a b. c # cs = a @ j @ b"
    proof cases
      case 1
      then have "c # cs = [] @ j @ drop (length j) (c # cs)"
        by (metis append_Nil append_take_drop_id)
      then show ?thesis by blast
    next
      case 2
      then obtain a b where "cs = a @ j @ b" using Cons.IH by blast
      then have "c # cs = (c # a) @ j @ b" by simp
      then show ?thesis by blast
    qed
  next
    assume "\<exists>a b. c # cs = a @ j @ b"
    then obtain a b where ab: "c # cs = a @ j @ b" by blast
    show "includes_js (c # cs) j"
    proof (cases a)
      case Nil
      then have "take (length j) (c # cs) = j" using ab by simp
      then show ?thesis by simp
    next
      case (Cons x xs)
      then have "cs = xs @ j @ b" using ab by simp
      then have "includes_js cs j" using Cons.IH by blast
      then show ?thesis by simp
    qed
  qed
qed

lemma includes_js_rev: "includes_js (rev s) (rev j) = includes_js s j"
proof -
  have "(\<exists>a b. rev s = a @ rev j @ b) \<longleftrightarrow> (\<exists>a b. s = a @ j @ b)"
  proof
    assume "\<exists>a b. rev s = a @ rev j @ b"
    then obtain a b where "rev s = a @ rev j @ b" by blast
    then have "rev (rev s) = rev (a @ rev j @ b)" by simp
    then have "s = rev b @ j @ rev a" by simp
    then show "\<exists>a b. s = a @ j @ b" by blast
  next
    assume "\<exists>a b. s = a @ j @ b"
    then obtain a b where "s = a @ j @ b" by blast
    then have "rev s = rev b @ rev j @ rev a" by simp
    then show "\<exists>a b. rev s = a @ rev j @ b" by blast
  qed
  then show ?thesis by (simp add: includes_js_iff)
qed

lemma includes_js_dropWhile:
  "j \<noteq> [] \<Longrightarrow> \<not> P (hd j) \<Longrightarrow> includes_js (dropWhile P s) j = includes_js s j"
proof (induction s)
  case Nil
  then show ?case by simp
next
  case (Cons c cs)
  show ?case
  proof (cases "P c")
    case True
    have "take (length j) (c # cs) \<noteq> j"
    proof
      assume "take (length j) (c # cs) = j"
      then have "hd j = c" using Cons.prems(1) by (cases j) auto
      then show False using True Cons.prems(2) by simp
    qed
    then show ?thesis using True Cons by simp
  next
    case False
    then show ?thesis by simp
  qed
qed

text \<open>
  A phrase that neither starts nor ends with white space is found in the trimmed text
  exactly when it is found in the text.
\<close>

lemma includes_js_trim:
  assumes "j \<noteq> []" "\<not> isWhiteSpace (hd j)" "\<not> isWhiteSpace (last j)"
  shows "includes_js (trim s) j = includes_js s j"
proof -
  have r: "rev j \<noteq> []" "\<not> isWhiteSpace (hd (rev j))"
    using assms by (simp_all add: hd_rev)
  have "includes_js (trim s) j
        = includes_js (dropWhile isWhiteSpace (rev (dropWhile isWhiteSpace s))) (rev j)"
    unfolding trim_def by (metis includes_js_rev rev_rev_ident)
  also have "\<dots> = includes_js (rev (dropWhile isWhiteSpace s)) (rev j)"
    using r by (rule includes_js_dropWhile)
  also have "\<dots> = includes_js (dropWhile isWhiteSpace s) j"
    by (rule includes_js_rev)
  also have "\<dots> = includes_js s j"
    using assms(1,2) by (rule includes_js_dropWhile)
  finally show ?thesis .
qed

lemma junkPhrases_shape:
  "list_all (\<lambda>j. j \<noteq> [] \<and> \<not> isWhiteSpace (hd j) \<and> \<not> isWhiteSpace (last j)) junkPhrases"
  by (simp add: junkPhrases_def isWhiteSpace_def)

lemma junk_trim:
  "list_ex (\<lambda>j. includes_js (trim s) j) junkPhrases = list_ex (\<lambda>j. includes_js s j) junkPhrases"
proof -
  have "\<forall>j \<in> set junkPhrases. includes_js (trim s) j = includes_js s j"
  proof
    fix j assume "j \<in> set junkPhrases"
    then have "j \<noteq> []" "\<not> isWhiteSpace (hd j)" "\<not> isWhiteSpace (last j)"
      using junkPhrases_shape by (auto simp: list_all_iff)
    then show "includes_js (trim s) j = includes_js s j" by (rule includes_js_trim)
  qed
  then show ?thesis by (auto simp: list_ex_iff)
qed

subsection \<open>The validity classifier\<close>

lemma classifier_rules:
  "isValidProductData Revised (Some data) \<longleftrightarrow>
     \<not> (rule_name_missing_or_short data \<or> rule_junk_phrase data \<or>
        rule_no_price_no_image data \<or> rule_sentence_like data)"
  by (cases "d_name data")
     (auto simp: rule_name_missing_or_short_def rule_junk_phrase_def rule_no_price_no_image_def
           rule_sentence_like_def junk_trim hasPrice_def hasImage_def wordCount_def
           fillerCount_def Let_def)

lemma classifier_older_rules:
  "isValidProductData ServiceWorker (Some data) \<longleftrightarrow>
     \<not> (rule_name_missing_or_short data \<or> rule_junk_name data)"
  by (cases "d_name data")
     (auto simp: rule_name_missing_or_short_def rule_junk_name_def Let_def)

lemma justAMoment_rejected:
  "\<not> isValidProductData Revised (Some justAMoment)"
  "\<not> isValidProductData ServiceWorker (Some justAMoment)"
  by code_simp+

lemma justAMoment_signals:
  "rule_junk_phrase justAMoment" "rule_no_price_no_image justAMoment"
  by code_simp+

text \<open>
  C2, as the code has it. The classifier of the revised engine rejects a candidate
  exactly when one of the four rules matches: the name is missing or shorter than 3
  characters after trimming; the case-folded name contains a junk phrase; there is
  neither a price above 0 nor an image reference longer than 10 characters; the name has
  at least 6 words of which at least 3 are filler words. Each rule returns the same
  verdict, so the order in which they are tried does not show in the result. The older
  copy of the classifier, in the service worker, rejects exactly when the name is missing
  or too short or the case-folded name contains one of its ten junk names; it looks at
  neither price nor image nor the shape of the name. The candidate
  \<^verbatim>\<open>{name: "Just a moment...", price: 0, imageUrl: ""}\<close> matches the second and the third
  rule and is rejected by both.
\<close>

theorem C2_classifier_four_rules:
  "(isValidProductData Revised (Some data) \<longleftrightarrow>
      \<not> (rule_name_missing_or_short data \<or> rule_junk_phrase data \<or>
         rule_no_price_no_image data \<or> rule_sentence_like data)) \<and>
   (isValidProductData ServiceWorker (Some data) \<longleftrightarrow>
      \<not> (rule_name_missing_or_short data \<or> rule_junk_name data)) \<and>
   \<not> isValidProductData Revised (None :: candidate option) \<and>
   \<not> isValidProductData ServiceWorker (None :: candidate option) \<and>
   \<not> isValidProductData Revised (Some justAMoment) \<and>
   \<not> isValidProductData ServiceWorker (Some justAMoment) \<and>
   rule_junk_phrase justAMoment \<and> rule_no_price_no_image justAMoment"
  using classifier_rules[of data] classifier_older_rules[of data]
    justAMoment_rejected justAMoment_signals
  by simp

text \<open>
  C2, as the claim states it of every copy of the classifier, fails on the older one: a
  candidate named \<^verbatim>\<open>Toy Robot\<close> with price 0 and no image matches the third rule, the
  revised classifier rejects it and the service worker's accepts it.
\<close>

theorem C2_older_classifier_ignores_price_and_image:
  "rule_no_price_no_image bareCandidate \<and>
   \<not> isValidProductData Revised (Some bareCandidate) \<and>
   isValidProductData ServiceWorker (Some bareCandidate)"
  by code_simp

subsection \<open>The rounding of doubles\<close>

text \<open>
  \<open>ilog2\<close> finds the binade, and \<open>fl\<close> is within half a unit in the last place:
  a relative error of at most \<open>2 ^ - 53\<close>, or half the subnormal spacing.
\<close>

declare bits.simps [simp del]

lemma bits_pos: "n > 0 \<Longrightarrow> bits n = Suc (bits (n div 2))"
  by (subst bits.simps) simp

lemma bits_bounds: "n > 0 \<Longrightarrow> 2 ^ (bits n - 1) \<le> n \<and> n < 2 ^ bits n"
proof (induction n rule: bits.induct)
  case (1 n)
  have n0: "n \<noteq> 0" using "1.prems" by simp
  note b = bits_pos[OF "1.prems"]
  show ?case
  proof (cases "n div 2 = 0")
    case True
    then have n1: "n = 1" using "1.prems" by presburger
    have "bits (n div 2) = 0" unfolding True by (subst bits.simps) simp
    then have "bits n = 1" using b by simp
    then show ?thesis using n1 by simp
  next
    case False
    then have h: "n div 2 > 0" by simp
    from "1.IH"[OF n0 h] have ih: "2 ^ (bits (n div 2) - 1) \<le> n div 2" "n div 2 < 2 ^ bits (n div 2)"
      by simp_all
    obtain c where c: "bits (n div 2) = Suc c" using bits_pos[OF h] by simp
    have d1: "2 * (n div 2) \<le> n" by presburger
    have d2: "n < 2 * (n div 2) + 2" by presburger
    have "2 ^ (bits n - 1) = (2::nat) * 2 ^ c" using b c by simp
    also have "\<dots> \<le> 2 * (n div 2)" using ih(1) c by simp
    finally have lo: "2 ^ (bits n - 1) \<le> n" using d1 by linarith
    have "n div 2 + 1 \<le> 2 ^ bits (n div 2)" using ih(2) by simp
    then have "2 * (n div 2) + 2 \<le> 2 * 2 ^ bits (n div 2)" by linarith
    then have hi: "n < 2 ^ bits n" using d2 b by simp
    show ?thesis using lo hi by simp
  qed
qed

lemma pow2_pos [simp]: "pow2 e > 0"
  by (simp add: pow2_def)

lemma pow2_powr: "pow2 e = 2 powr (of_int e)"
proof (cases "e \<ge> 0")
  case True
  then show ?thesis by (simp add: pow2_def powr_realpow [symmetric])
next
  case False
  define n where "n = nat (- e)"
  have e: "real_of_int e = - real n" using False by (simp add: n_def)
  have "pow2 e = 1 / 2 ^ n" using False by (simp add: pow2_def n_def)
  also have "\<dots> = 1 / (2 powr real n)" by (simp add: powr_realpow)
  also have "\<dots> = 2 powr (- real n)" by (simp add: powr_minus_divide)
  finally show ?thesis by (simp add: e)
qed

lemma pow2_add: "pow2 (a + b) = pow2 a * pow2 b"
  by (simp add: pow2_powr powr_add)

lemma pow2_mono: "a \<le> b \<Longrightarrow> pow2 a \<le> pow2 b"
  by (simp add: pow2_powr)

lemma pow2_nz [simp]: "pow2 e \<noteq> 0"
  by (simp add: pow2_def)

lemma pow2_abs [simp]: "\<bar>pow2 e\<bar> = pow2 e"
  by (simp add: pow2_def)

lemma pow2_nonneg [simp]: "0 \<le> pow2 e"
  by (simp add: pow2_def)

lemma pow2_neg_nat: "pow2 (- int n) = 1 / 2 ^ n"
  by (cases "n = 0") (simp_all add: pow2_def)

lemma pow2_nat: "pow2 (int n) = 2 ^ n"
  by (simp add: pow2_def)

lemma ilog2_bounds:
  assumes "x > 0"
  shows "pow2 (ilog2 x) \<le> x \<and> x < pow2 (ilog2 x + 1)"
proof (cases "x \<ge> 1")
  case True
  let ?n = "nat \<lfloor>x\<rfloor>"
  have n: "?n > 0" using True by simp
  have k: "ilog2 x = int (bits ?n) - 1" using True by (simp add: ilog2_def)
  from bits_bounds[OF n] have b: "2 ^ (bits ?n - 1) \<le> ?n" "?n < 2 ^ bits ?n" by simp_all
  have b1: "bits ?n \<ge> 1" using bits_pos[OF n] by simp
  then have k': "ilog2 x = int (bits ?n - 1)" using k by simp
  have "real (2 ^ (bits ?n - 1)) \<le> real ?n" using b(1) by (rule of_nat_mono)
  also have "real ?n \<le> x" using True by simp
  finally have lo: "pow2 (ilog2 x) \<le> x" by (simp add: k' pow2_nat)
  have "?n + 1 \<le> 2 ^ bits ?n" using b(2) by linarith
  then have "real (?n + 1) \<le> real (2 ^ bits ?n)" by (rule of_nat_mono)
  moreover have "x < real (?n + 1)" using True by (simp, linarith)
  ultimately have "x < real (2 ^ bits ?n)" by linarith
  then have "x < 2 ^ bits ?n" by simp
  moreover have "ilog2 x + 1 = int (bits ?n)" using k by simp
  ultimately have hi: "x < pow2 (ilog2 x + 1)" by (simp add: pow2_nat)
  show ?thesis using lo hi by simp
next
  case False
  then have x1: "x < 1" by simp
  let ?m = "\<lceil>1 / x\<rceil>"
  have y: "1 / x > 1" using assms x1 by simp
  then have m2: "?m \<ge> 2" by (simp add: le_ceiling_iff)
  let ?n = "nat (?m - 1)"
  have n: "?n > 0" using m2 by simp
  let ?j = "bits ?n"
  have k: "ilog2 x = - int ?j" using False by (simp add: ilog2_def)
  from bits_bounds[OF n] have b: "2 ^ (?j - 1) \<le> ?n" "?n < 2 ^ ?j" by simp_all
  have j1: "?j \<ge> 1" using bits_pos[OF n] by simp
  have "real ?n < 1 / x" using m2 by (simp add: of_nat_nat, linarith)
  moreover have "real (2 ^ (?j - 1)) \<le> real ?n" using b(1) by (rule of_nat_mono)
  ultimately have "real (2 ^ (?j - 1)) < 1 / x" by linarith
  then have "2 ^ (?j - 1) < 1 / x" by simp
  then have "x * 2 ^ (?j - 1) < 1" using assms by (simp add: field_simps)
  then have "x < 1 / 2 ^ (?j - 1)" by (simp add: field_simps)
  moreover have "pow2 (ilog2 x + 1) = 1 / 2 ^ (?j - 1)"
  proof -
    have "ilog2 x + 1 = - int (?j - 1)" using k j1 by simp
    then show ?thesis by (simp only: pow2_neg_nat)
  qed
  ultimately have hi: "x < pow2 (ilog2 x + 1)" by simp
  have "?n + 1 \<le> 2 ^ ?j" using b(2) by linarith
  then have "real (?n + 1) \<le> real (2 ^ ?j)" by (rule of_nat_mono)
  moreover have "1 / x \<le> real (?n + 1)" using m2 by (simp add: of_nat_nat, linarith)
  ultimately have "1 / x \<le> real (2 ^ ?j)" by linarith
  then have "1 / x \<le> 2 ^ ?j" by simp
  then have "1 \<le> x * 2 ^ ?j" using assms by (simp add: field_simps)
  then have "1 / 2 ^ ?j \<le> x" by (simp add: field_simps)
  moreover have "pow2 (ilog2 x) = 1 / 2 ^ ?j" using k by (simp only: pow2_neg_nat)
  ultimately show ?thesis using hi by simp
qed

lemma rne_err: "\<bar>of_int (rne y) - y\<bar> \<le> 1 / 2"
proof -
  have "of_int \<lfloor>y\<rfloor> \<le> y" "y < of_int \<lfloor>y\<rfloor> + 1" by linarith+
  then show ?thesis by (auto simp: rne_def Let_def)
qed

lemma fl_err:
  "\<bar>fl x - x\<bar> \<le> (\<bar>x\<bar> + 1) / 2 ^ 53"
proof (cases "x = 0")
  case True
  then show ?thesis by (simp add: fl_def)
next
  case False
  define k where "k = ilog2 \<bar>x\<bar>"
  define e where "e = max (k - 52) (- 1074)"
  have f: "fl x = of_int (rne (x / pow2 e)) * pow2 e"
    using False by (simp add: fl_def e_def k_def Let_def)
  have "\<bar>fl x - x\<bar> = \<bar>of_int (rne (x / pow2 e)) - x / pow2 e\<bar> * pow2 e"
  proof -
    have "fl x - x = (of_int (rne (x / pow2 e)) - x / pow2 e) * pow2 e"
      unfolding f by (simp add: field_simps)
    then show ?thesis by (simp add: abs_mult)
  qed
  also have "\<dots> \<le> 1 / 2 * pow2 e"
    by (rule mult_right_mono[OF rne_err]) simp
  finally have a: "\<bar>fl x - x\<bar> \<le> pow2 e / 2" by simp
  have "pow2 k \<le> \<bar>x\<bar>" using ilog2_bounds[of "\<bar>x\<bar>"] False by (simp add: k_def)
  moreover have "pow2 (k - 52) = pow2 k / 2 ^ 52"
    using pow2_add[of k "- 52"] by (simp add: pow2_def)
  ultimately have b: "pow2 (k - 52) \<le> \<bar>x\<bar> / 2 ^ 52" by (simp add: divide_right_mono)
  have "pow2 (- 1074) \<le> pow2 (- 52)" by (rule pow2_mono) simp
  moreover have "pow2 (- 52) = 1 / 2 ^ 52" by (simp add: pow2_def)
  ultimately have c: "pow2 (- 1074) \<le> 1 / 2 ^ 52" by simp
  have "pow2 e \<le> (\<bar>x\<bar> + 1) / 2 ^ 52"
  proof (cases "k - 52 \<ge> - 1074")
    case True
    then have "e = k - 52" by (simp add: e_def)
    then have "pow2 e \<le> \<bar>x\<bar> / 2 ^ 52" using b by simp
    also have "\<dots> \<le> (\<bar>x\<bar> + 1) / 2 ^ 52" by (simp add: divide_right_mono)
    finally show ?thesis .
  next
    case False
    then have "e = - 1074" by (simp add: e_def)
    then have "pow2 e \<le> 1 / 2 ^ 52" using c by simp
    also have "\<dots> \<le> (\<bar>x\<bar> + 1) / 2 ^ 52" by (simp add: divide_right_mono)
    finally show ?thesis .
  qed
  then have "pow2 e / 2 \<le> (\<bar>x\<bar> + 1) / 2 ^ 53" by simp
  then show ?thesis using a by linarith
qed


text \<open>Computations in doubles, one operation at a time.\<close>

lemmas fl_eval = fl_def ilog2_def rne_def pow2_def Let_def bits.simps



lemma drop_100_80_steps:
  "fsub 100 80 = 20"
  "fdiv 20 100 = 3602879701896397 / 2 ^ 54"
  "fmul (3602879701896397 / 2 ^ 54) 100 = 20"
  by (simp_all add: fsub_def fdiv_def fmul_def fl_eval)


lemma jitter_three_quarters_steps:
  "fmul (3 / 4) 2 = 3 / 2"
  "fsub (3 / 2) 1 = 1 / 2"
  "fmul (1 / 2) (3602879701896397 / 2 ^ 54) = 3602879701896397 / 2 ^ 55"
  "fadd 1 (3602879701896397 / 2 ^ 55) = 2476979795053773 / 2 ^ 51"
  "fmul 300000 (2476979795053773 / 2 ^ 51) = 330000"
  by (simp_all add: fsub_def fadd_def fmul_def fl_eval)

lemma backoff_9: "backoffDelay 9 (3 / 4) = 330000"
proof -
  have m: "min (1000 * 2 ^ 9) (5 * 60 * 1000) = (300000::real)" by simp
  have "jitter 300000 20 (3 / 4) = 330000"
    unfolding jitter_def Let_def
    by (simp only: jitter_three_quarters_steps drop_100_80_steps(2)) (simp add: round_js_def)
  then show ?thesis unfolding backoffDelay_def Let_def m .
qed

lemma jitter_half_steps:
  "fmul (1 / 2) 2 = 1"
  "fsub 1 1 = 0"
  "fmul 0 (3602879701896397 / 2 ^ 54) = 0"
  "fadd 1 0 = 1"
  "fmul 8000 1 = 8000"
  by (simp_all add: fsub_def fadd_def fmul_def fl_eval)

lemma backoff_3: "backoffDelay 3 (1 / 2) = 8000"
proof -
  have m: "min (1000 * 2 ^ 3) (5 * 60 * 1000) = (8000::real)" by simp
  have "jitter 8000 20 (1 / 2) = 8000"
    unfolding jitter_def Let_def
    by (simp only: jitter_half_steps drop_100_80_steps(2)) (simp add: round_js_def)
  then show ?thesis unfolding backoffDelay_def Let_def m .
qed

lemma jitter_67_128_steps:
  "fmul (67 / 128) 2 = 67 / 64"
  "fsub (67 / 64) 1 = 3 / 64"
  "fmul (3 / 64) (3602879701896397 / 2 ^ 54) = 1351079888211149 / 2 ^ 57"
  "fadd 1 (1351079888211149 / 2 ^ 57) = 2272910436938547 / 2 ^ 51"
  "fmul 4000 (2272910436938547 / 2 ^ 51) = 8878556394291199 / 2 ^ 41"
  by (simp_all add: fsub_def fadd_def fmul_def fl_eval)

lemma backoff_2: "backoffDelay 2 (67 / 128) = 4037"
proof -
  have m: "min (1000 * 2 ^ 2) (5 * 60 * 1000) = (4000::real)" by simp
  have "jitter 4000 20 (67 / 128) = 4037"
    unfolding jitter_def Let_def
    by (simp only: jitter_67_128_steps drop_100_80_steps(2)) (simp add: round_js_def)
  then show ?thesis unfolding backoffDelay_def Let_def m .
qed

subsection \<open>Backoff\<close>

lemma fl_close: "\<bar>fl x - x\<bar> \<le> (\<bar>x\<bar> + 1) / 10 ^ 15"
proof -
  have "(10::real) ^ 15 \<le> 2 ^ 53" by simp
  then have "(\<bar>x\<bar> + 1) / 2 ^ 53 \<le> (\<bar>x\<bar> + 1) / 10 ^ 15"
    by (intro divide_left_mono) simp_all
  then show ?thesis using fl_err[of x] by linarith
qed

lemma jitter_factor_bound:
  assumes "0 \<le> r" "r < 1"
  shows "\<bar>fadd 1 (fmul (fsub (fmul r 2) 1) (fdiv 20 100))\<bar> \<le> 12 / 10 + 1 / 10 ^ 9"
proof -
  define a where "a = fl (r * 2)"
  define b where "b = fl (a - 1)"
  define c where "c = fl (20 / 100)"
  define d where "d = fl (b * c)"
  define f where "f = fl (1 + d)"
  have a: "\<bar>a - 1\<bar> \<le> 1 + 1 / 10 ^ 14"
    using fl_close[of "r * 2"] assms unfolding a_def by (simp add: abs_if split: if_splits) 
  have b: "\<bar>b\<bar> \<le> 1 + 1 / 10 ^ 13"
    using fl_close[of "a - 1"] a unfolding b_def by (simp add: abs_if split: if_splits)
  have c: "\<bar>c\<bar> \<le> 2 / 10 + 1 / 10 ^ 13"
    using fl_close[of "20 / 100"] unfolding c_def by (simp add: abs_if split: if_splits)
  have "\<bar>b * c\<bar> \<le> (1 + 1 / 10 ^ 13) * (2 / 10 + 1 / 10 ^ 13)"
    unfolding abs_mult using b c by (intro mult_mono) simp_all
  then have bc: "\<bar>b * c\<bar> \<le> 2 / 10 + 1 / 10 ^ 12" by simp
  have d: "\<bar>d\<bar> \<le> 2 / 10 + 1 / 10 ^ 11"
    using fl_close[of "b * c"] bc unfolding d_def by (simp add: abs_if split: if_splits)
  have f: "\<bar>f\<bar> \<le> 12 / 10 + 1 / 10 ^ 9"
    using fl_close[of "1 + d"] d unfolding f_def by (simp add: abs_if split: if_splits)
  show ?thesis
    using f by (simp add: f_def d_def c_def b_def a_def fadd_def fmul_def fsub_def fdiv_def)
qed

lemma jitter_upper:
  assumes "0 \<le> r" "r < 1" "0 \<le> base" "base \<le> 300000"
  shows "jitter base 20 r \<le> 360000"
proof -
  define f where "f = fadd 1 (fmul (fsub (fmul r 2) 1) (fdiv 20 100))"
  have f: "\<bar>f\<bar> \<le> 12 / 10 + 1 / 10 ^ 9"
    unfolding f_def using assms(1,2) by (rule jitter_factor_bound)
  have "\<bar>base * f\<bar> \<le> 300000 * (12 / 10 + 1 / 10 ^ 9)"
    unfolding abs_mult using f assms(3,4) by (intro mult_mono) simp_all
  then have bf: "\<bar>base * f\<bar> \<le> 360000 + 1 / 10 ^ 3" by simp
  have "\<bar>fl (base * f)\<bar> \<le> 360000 + 1 / 10"
    using fl_close[of "base * f"] bf by (simp add: abs_if split: if_splits)
  then have "fl (base * f) + 1 / 2 < 360001" by (simp add: abs_if split: if_splits)
  then have "\<lfloor>fl (base * f) + 1 / 2\<rfloor> < 360001" by (simp add: floor_less_iff)
  then show ?thesis by (simp add: jitter_def round_js_def f_def fmul_def Let_def)
qed

lemma backoffDelay_upper:
  assumes "0 \<le> r" "r < 1"
  shows "backoffDelay n r \<le> 360000"
  using jitter_upper[OF assms, of "min (1000 * 2 ^ n) 300000"]
  by (simp add: backoffDelay_def Let_def)

text \<open>
  C5, as the code has it. For every error count and every random outcome in [0, 1) the
  delay is the jitter by 20 percent of \<open>min (1000 * 2 ^ n) 300000\<close>; the jitter is
  applied after the cap, so the bound is the cap plus 20 percent, 360000 ms.
\<close>

theorem C5_backoff_jitter_after_cap:
  assumes "0 \<le> r" "r < 1"
  shows "backoffDelay n r = jitter (min (1000 * 2 ^ n) 300000) 20 r \<and>
         backoffDelay n r \<le> 360000"
  using backoffDelay_upper[OF assms, of n] by (simp add: backoffDelay_def Let_def)

text \<open>C5 at three errors and the random outcome 1/2: the delay is 8000 ms.\<close>

theorem C5_backoff_witness:
  "(0::real) \<le> 1 / 2 \<and> (1 / 2 :: real) < 1 \<and>
   backoffDelay 3 (1 / 2) = jitter (min (1000 * 2 ^ 3) 300000) 20 (1 / 2) \<and>
   backoffDelay 3 (1 / 2) = 8000 \<and> backoffDelay 3 (1 / 2) \<le> 360000"
proof -
  have h: "(0::real) \<le> 1 / 2" "(1 / 2 :: real) < 1" by simp_all
  show ?thesis using C5_backoff_jitter_after_cap[OF h, of 3] h backoff_3 by simp
qed

text \<open>
  C5, as the claim states it, fails: with nine errors the capped delay is 300000 ms and a
  random outcome of 3/4 stretches it to 330000 ms, above the cap.
\<close>

theorem C5_backoff_exceeds_cap:
  "(0::real) \<le> 3 / 4 \<and> (3 / 4 :: real) < 1 \<and> backoffDelay 9 (3 / 4) = 330000 \<and>
   \<not> backoffDelay 9 (3 / 4) \<le> 300000"
  by (simp add: backoff_9)

subsection \<open>The store and the record of calls\<close>

declare retryLoop.simps [simp del]

lemma loggedEntries_append [simp]: "loggedEntries (xs @ ys) = loggedEntries xs @ loggedEntries ys"
  by (induction xs rule: loggedEntries.induct) simp_all

lemma l_event_entry [simp]: "l_event (entry t i ev d) = ev"
  by (simp add: entry_def)

lemma call_fields [simp]:
  "products (call c w) = products w" "logs (call c w) = logs w" "clock (call c w) = clock w"
  "calls (call c w) = calls w @ [c]" "RATE_LIMITER (call c w) = RATE_LIMITER w"
  "draws (call c w) = draws w" "isChecking (call c w) = isChecking w"
  "stored_settings (call c w) = stored_settings w"
  by (simp_all add: call_def)

lemma sleep_fields [simp]:
  "products (sleep ms w) = products w" "logs (sleep ms w) = logs w"
  "clock (sleep ms w) = clock w + max 0 ms"
  "calls (sleep ms w) = calls w @ [Sleep ms]" "RATE_LIMITER (sleep ms w) = RATE_LIMITER w"
  "draws (sleep ms w) = draws w" "isChecking (sleep ms w) = isChecking w"
  "stored_settings (sleep ms w) = stored_settings w"
  by (simp_all add: sleep_def)

lemma addLog_fields [simp]:
  "products (addLog e w) = products w" "clock (addLog e w) = clock w"
  "calls (addLog e w) = calls w @ [Logged e]" "RATE_LIMITER (addLog e w) = RATE_LIMITER w"
  "draws (addLog e w) = draws w" "isChecking (addLog e w) = isChecking w"
  "stored_settings (addLog e w) = stored_settings w"
  by (simp_all add: addLog_def)

lemma getProduct_cong: "products w' = products w \<Longrightarrow> getProduct i w' = getProduct i w"
  by (simp add: getProduct_def)

lemma getProduct_steps [simp]:
  "getProduct i (call c w) = getProduct i w" "getProduct i (sleep ms w) = getProduct i w"
  "getProduct i (addLog e w) = getProduct i w"
  by (simp_all add: getProduct_def)

lemma findIndex_None: "findIndex P xs = None \<longleftrightarrow> find P xs = None"
  by (induction xs) (auto split: option.splits)

lemma findIndex_Some:
  "findIndex P xs = Some i \<Longrightarrow> i < length xs \<and> find P xs = Some (xs ! i)"
  by (induction xs arbitrary: i) (auto split: option.splits if_splits)

lemma find_list_update:
  "findIndex P xs = Some i \<Longrightarrow> P y \<Longrightarrow> find P (xs[i := y]) = Some y"
  by (induction xs arbitrary: i) (auto split: option.splits if_splits)

lemma pid_spread [simp]: "pid (spread q u) = pid q"
  by (simp add: spread_def)

lemma updateProduct_stored:
  assumes "getProduct i w = Some q"
  shows "\<exists>w'. updateProduct i u w = Returned w' \<and> getProduct i w' = Some (spread q u) \<and>
              calls w' = calls w \<and> logs w' = logs w \<and> clock w' = clock w \<and>
              map pid (products w') = map pid (products w) \<and>
              RATE_LIMITER w' = RATE_LIMITER w \<and> draws w' = draws w"
proof -
  from assms obtain idx where idx: "findIndex (\<lambda>p. pid p = i) (products w) = Some idx"
    by (cases "findIndex (\<lambda>p. pid p = i) (products w)") (auto simp: getProduct_def findIndex_None)
  from findIndex_Some[OF idx] assms have q: "products w ! idx = q" and len: "idx < length (products w)"
    by (auto simp: getProduct_def)
  from assms have "pid q = i" by (auto simp: getProduct_def dest: find_Some_iff[THEN iffD1])
  then have "pid (spread q u) = i" by simp
  then have "find (\<lambda>p. pid p = i) ((products w)[idx := spread q u]) = Some (spread q u)"
    using find_list_update[OF idx, of "spread q u"] by simp
  moreover have "map pid ((products w)[idx := spread q u]) = map pid (products w)"
    using q len by (simp add: map_update list_update_same_conv)
  ultimately show ?thesis
    using idx q by (simp add: updateProduct_def getProduct_def)
qed

lemma updateProduct_missing:
  "getProduct i w = None \<Longrightarrow> updateProduct i u w = Threw (''Product '' @ i @ '' not found.'') w"
  by (simp add: updateProduct_def getProduct_def findIndex_None[symmetric])

lemma updateProduct_cases:
  "updateProduct i u w = Threw (''Product '' @ i @ '' not found.'') w \<or>
   (\<exists>idx < length (products w).
      updateProduct i u w =
        Returned (w\<lparr> products := (products w)[idx := spread (products w ! idx) u] \<rparr>))"
  by (cases "findIndex (\<lambda>p. pid p = i) (products w)")
     (auto simp: updateProduct_def dest: findIndex_Some)

lemma upToQty_refl [simp]: "upToQty w w"
  by (simp add: upToQty_def list_all2_same)

lemma upToQty_same: "products w' = products w \<Longrightarrow> upToQty w w'"
  by (simp add: upToQty_def list_all2_same)

lemma upToQty_trans: "upToQty w w' \<Longrightarrow> upToQty w' w'' \<Longrightarrow> upToQty w w''"
proof -
  assume a: "upToQty w w'" and b: "upToQty w' w''"
  have "list_all2 (\<lambda>a c. c = a\<lparr> maxPurchaseQty := maxPurchaseQty c \<rparr>) (products w) (products w'')"
  proof (rule list_all2_trans[OF _ a[unfolded upToQty_def] b[unfolded upToQty_def]])
    fix x y z :: product
    assume "y = x\<lparr> maxPurchaseQty := maxPurchaseQty y \<rparr>" "z = y\<lparr> maxPurchaseQty := maxPurchaseQty z \<rparr>"
    then show "z = x\<lparr> maxPurchaseQty := maxPurchaseQty z \<rparr>"
      by (cases x, cases y, cases z) simp
  qed
  then show ?thesis by (simp add: upToQty_def)
qed

subsection \<open>One add-to-cart attempt\<close>

lemma find_all2:
  "list_all2 R xs ys \<Longrightarrow> (\<And>a b. R a b \<Longrightarrow> pid b = pid a) \<Longrightarrow>
   find (\<lambda>p. pid p = i) xs = Some q \<Longrightarrow> \<exists>q'. find (\<lambda>p. pid p = i) ys = Some q' \<and> R q q'"
proof (induction rule: list_all2_induct)
  case Nil
  then show ?case by simp
next
  case (Cons x xs y ys)
  show ?case
  proof (cases "pid x = i")
    case True
    then have "pid y = i" using Cons.hyps(1) Cons.prems(1) by simp
    then show ?thesis using True Cons.hyps(1) Cons.prems(2) by simp
  next
    case False
    then have "pid y \<noteq> i" using Cons.hyps(1) Cons.prems(1) by simp
    then show ?thesis using False Cons by simp
  qed
qed

lemma upToQty_getProduct:
  assumes "upToQty w w'" "getProduct i w = Some q"
  shows "\<exists>q'. getProduct i w' = Some q' \<and> q' = q\<lparr> maxPurchaseQty := maxPurchaseQty q' \<rparr>"
proof -
  have "\<And>a b. b = a\<lparr> maxPurchaseQty := maxPurchaseQty b \<rparr> \<Longrightarrow> pid b = pid a"
    by (metis product.select_convs(1) product.surjective product.update_convs(16))
  from find_all2[OF assms(1)[unfolded upToQty_def] this assms(2)[unfolded getProduct_def]]
  show ?thesis by (simp add: getProduct_def)
qed

lemma spread_qty: "spread q (noUpdates\<lparr> u_maxPurchaseQty := Some (Some m) \<rparr>) = q\<lparr> maxPurchaseQty := Some m \<rparr>"
  by (simp add: spread_def noUpdates_def orKeep_def)

lemma upToQty_update:
  assumes "idx < length (products w)"
  shows "upToQty w (w\<lparr> products := (products w)[idx := (products w ! idx)\<lparr> maxPurchaseQty := m \<rparr>] \<rparr>)"
  using assms
  by (auto simp: upToQty_def list_all2_conv_all_nth nth_list_update)

lemma updateQty_frame:
  "updateProduct i (noUpdates\<lparr> u_maxPurchaseQty := Some (Some m) \<rparr>) w = Returned w' \<Longrightarrow>
     upToQty w w' \<and> calls w' = calls w \<and> clock w' = clock w"
  "updateProduct i (noUpdates\<lparr> u_maxPurchaseQty := Some (Some m) \<rparr>) w = Threw err w' \<Longrightarrow> w' = w"
  using updateProduct_cases[of i "noUpdates\<lparr> u_maxPurchaseQty := Some (Some m) \<rparr>" w]
  by (auto simp: spread_qty upToQty_update)

lemma tabReady_fields [simp]:
  "products (tabReady p w) = products w"
  "calls (tabReady p w) = calls w @ [WaitForTabLoad, Sleep 2000, SendAddToCart (pid p) (maxQuantity p) True]"
  by (simp_all add: tabReady_def)

lemma closeCreated_fields [simp]:
  "products (closeCreated b w) = products w"
  "calls (closeCreated b w) = calls w @ (if b then [RemoveTab] else [])"
  by (simp_all add: closeCreated_def)

lemma cartAttempt_frame:
  "upToQty w (endWorld (cartAttempt en p a w)) \<and>
   (\<exists>new. calls (endWorld (cartAttempt en p a w)) = calls w @ QueryTabs (url p @ ''*'') # new \<and>
          l_event ` set (loggedEntries new) \<subseteq> {ev_add_to_cart})"
proof (cases "addToCart en p a")
  case (AcquireThrew msg)
  then show ?thesis by (simp add: cartAttempt_def upToQty_same)
next
  case (SendThrew c msg)
  then show ?thesis by (simp add: cartAttempt_def upToQty_same)
next
  case (Replied c response)
  show ?thesis
  proof (cases response)
    case None
    then show ?thesis using Replied by (simp add: cartAttempt_def upToQty_same)
  next
    case (Some r)
    show ?thesis
    proof (cases "r_success r")
      case False
      then show ?thesis using Replied Some by (simp add: cartAttempt_def upToQty_same)
    next
      case True
      let ?w1 = "tabReady p (call (QueryTabs (url p @ ''*'')) w)"
      let ?w2 = "addLog (entry (clock ?w1) (pid p) ev_add_to_cart
                    (CartSucceeded (name p) (r_quantityRequested r) (r_pageMax r) (r_warning r) a)) ?w1"
      let ?upd = "case r_pageMax r of None \<Rightarrow> Returned ?w2
                  | Some m \<Rightarrow> if m > 0
                      then updateProduct (pid p) (noUpdates\<lparr> u_maxPurchaseQty := Some (Some m) \<rparr>) ?w2
                      else Returned ?w2"
      have w2: "upToQty w ?w2" by (simp add: upToQty_same)
      have c2: "calls ?w2 = calls w @ QueryTabs (url p @ ''*'') #
                  [WaitForTabLoad, Sleep 2000, SendAddToCart (pid p) (maxQuantity p) True,
                   Logged (entry (clock ?w1) (pid p) ev_add_to_cart
                    (CartSucceeded (name p) (r_quantityRequested r) (r_pageMax r) (r_warning r) a))]"
        by simp
      have e: "cartAttempt en p a w =
                 (case ?upd of Returned w3 \<Rightarrow> Succeeded (closeCreated c w3)
                  | Threw err w3 \<Rightarrow> Failed err (closeCreated c w3))"
        using Replied Some True by (simp add: cartAttempt_def Let_def)
      have u: "\<exists>w3. (?upd = Returned w3 \<or> (\<exists>err. ?upd = Threw err w3)) \<and> upToQty ?w2 w3 \<and> calls w3 = calls ?w2"
      proof (cases ?upd)
        case (Returned w3)
        then have "upToQty ?w2 w3 \<and> calls w3 = calls ?w2"
          by (auto split: option.splits if_splits dest: updateQty_frame(1))
        then show ?thesis using Returned by blast
      next
        case (Threw err w3)
        then have "w3 = ?w2"
          by (auto split: option.splits if_splits dest: updateQty_frame(2))
        then show ?thesis using Threw by auto
      qed
      then obtain w3 where w3: "?upd = Returned w3 \<or> (\<exists>err. ?upd = Threw err w3)"
        "upToQty ?w2 w3" "calls w3 = calls ?w2" by blast
      have ew: "endWorld (cartAttempt en p a w) = closeCreated c w3"
        using w3(1) e by auto
      have "upToQty w (closeCreated c w3)"
        using upToQty_trans[OF w2 w3(2)] by (auto simp: upToQty_def)
      moreover have "calls (closeCreated c w3) = calls w @ QueryTabs (url p @ ''*'') #
                  ([WaitForTabLoad, Sleep 2000, SendAddToCart (pid p) (maxQuantity p) True,
                   Logged (entry (clock ?w1) (pid p) ev_add_to_cart
                    (CartSucceeded (name p) (r_quantityRequested r) (r_pageMax r) (r_warning r) a))]
                   @ (if c then [RemoveTab] else []))"
        using w3(3) c2 by simp
      moreover have "l_event ` set (loggedEntries ([WaitForTabLoad, Sleep 2000, SendAddToCart (pid p) (maxQuantity p) True,
                   Logged (entry (clock ?w1) (pid p) ev_add_to_cart
                    (CartSucceeded (name p) (r_quantityRequested r) (r_pageMax r) (r_warning r) a))]
                   @ (if c then [RemoveTab] else []))) \<subseteq> {ev_add_to_cart}"
        by simp
      ultimately show ?thesis unfolding ew by blast
    qed
  qed
qed

subsection \<open>The retry loop\<close>

lemma logged_refl [simp]: "logged w w []"
  by (simp add: logged_def)

lemma logged_trans: "logged w w' a \<Longrightarrow> logged w' w'' b \<Longrightarrow> logged w w'' (a @ b)"
  by (auto simp: logged_def)

lemma logged_same: "calls w' = calls w \<Longrightarrow> logged w w' []"
  by (simp add: logged_def)

lemma logged_emitted: "logged w w' es \<Longrightarrow> loggedEntries (emitted w w') = es"
  by (auto simp: logged_def emitted_def)

lemma logged_call: "loggedEntries [c] = es \<Longrightarrow> logged w w' a \<Longrightarrow> logged w (call c w') (a @ es)"
  by (auto simp: logged_def)

lemma logged_sleep: "logged w w' a \<Longrightarrow> logged w (sleep ms w') a"
  by (auto simp: logged_def)

lemma logged_addLog: "logged w w' a \<Longrightarrow> logged w (addLog e w') (a @ [e])"
  by (auto simp: logged_def)

lemma upToQty_step:
  "upToQty w w' \<Longrightarrow> upToQty w (call c w')" "upToQty w w' \<Longrightarrow> upToQty w (sleep ms w')"
  "upToQty w w' \<Longrightarrow> upToQty w (addLog e w')"
  by (simp_all add: upToQty_def)

lemma cartAttempt_logged:
  "\<exists>evs. logged w (endWorld (cartAttempt en p a w)) evs \<and> l_event ` set evs \<subseteq> {ev_add_to_cart, ev_error}"
proof -
  from cartAttempt_frame[of w en p a] obtain new where
    n: "calls (endWorld (cartAttempt en p a w)) = calls w @ QueryTabs (url p @ ''*'') # new"
       "l_event ` set (loggedEntries new) \<subseteq> {ev_add_to_cart}" by blast
  have "logged w (endWorld (cartAttempt en p a w)) (loggedEntries new)"
    using n(1) by (simp add: logged_def)
  moreover have "l_event ` set (loggedEntries new) \<subseteq> {ev_add_to_cart, ev_error}"
    using n(2) by blast
  ultimately show ?thesis by blast
qed

lemma cartAttempt_upToQty: "upToQty w (endWorld (cartAttempt en p a w))"
  using cartAttempt_frame[of w en p a] by simp

lemma retryLoop_frame:
  "upToQty w (retryLoop en p a le w) \<and>
   (\<exists>evs. logged w (retryLoop en p a le w) evs \<and> l_event ` set evs \<subseteq> {ev_add_to_cart, ev_error})"
proof (induction en p a le w rule: retryLoop.induct)
  case (1 en p attempt lastErr w)
  show ?case
  proof (cases "attempt \<le> ADD_CART_MAX_RETRIES")
    case False
    then have e: "retryLoop en p attempt lastErr w =
        addLog (entry (clock w) (pid p) ev_error (CartGaveUp ADD_CART_MAX_RETRIES lastErr)) w"
      by (simp add: retryLoop.simps)
    have "logged w (addLog (entry (clock w) (pid p) ev_error (CartGaveUp ADD_CART_MAX_RETRIES lastErr)) w)
            ([] @ [entry (clock w) (pid p) ev_error (CartGaveUp ADD_CART_MAX_RETRIES lastErr)])"
      using logged_addLog[OF logged_refl, of w "entry (clock w) (pid p) ev_error (CartGaveUp ADD_CART_MAX_RETRIES lastErr)"] by simp
    then show ?thesis unfolding e by (auto simp: upToQty_step)
  next
    case True
    obtain evs1 where a1: "logged w (endWorld (cartAttempt en p attempt w)) evs1"
      "l_event ` set evs1 \<subseteq> {ev_add_to_cart, ev_error}"
      using cartAttempt_logged by blast
    note u1 = cartAttempt_upToQty[of w en p attempt]
    show ?thesis
    proof (cases "cartAttempt en p attempt w")
      case (Succeeded w')
      then have "retryLoop en p attempt lastErr w = w'"
        using True by (simp add: retryLoop.simps)
      then show ?thesis using a1 u1 Succeeded by auto
    next
      case (Failed err w')
      let ?w'' = "if attempt < ADD_CART_MAX_RETRIES
                  then sleep (ADD_CART_BASE_DELAY * 2 ^ (attempt - 1)) w' else w'"
      have e: "retryLoop en p attempt lastErr w = retryLoop en p (attempt + 1) err ?w''"
        using True Failed by (simp add: retryLoop.simps)
      from "1.IH"[OF True Failed]
      obtain evs2 where ih: "upToQty ?w'' (retryLoop en p (attempt + 1) err ?w'')"
        "logged ?w'' (retryLoop en p (attempt + 1) err ?w'') evs2"
        "l_event ` set evs2 \<subseteq> {ev_add_to_cart, ev_error}" by blast
      have l: "logged w ?w'' evs1" using a1(1) Failed by (simp add: logged_sleep)
      have u: "upToQty w ?w''" using u1 Failed by (simp add: upToQty_step)
      have "logged w (retryLoop en p (attempt + 1) err ?w'') (evs1 @ evs2)"
        using logged_trans[OF l ih(2)] .
      moreover have "upToQty w (retryLoop en p (attempt + 1) err ?w'')"
        using upToQty_trans[OF u ih(1)] .
      ultimately show ?thesis unfolding e using a1(2) ih(3) by (intro conjI exI[of _ "evs1 @ evs2"]) auto
    qed
  qed
qed

lemma singleAttempt_frame:
  "upToQty w (singleAttempt en p w) \<and>
   (\<exists>evs. logged w (singleAttempt en p w) evs \<and> l_event ` set evs \<subseteq> {ev_add_to_cart, ev_error})"
  by (cases "addToCart en p 1")
     (auto simp: singleAttempt_def Let_def upToQty_same logged_def)

lemma triggerAddToCart_frame:
  "upToQty w (triggerAddToCart en e p w) \<and>
   (\<exists>evs. logged w (triggerAddToCart en e p w) evs \<and> l_event ` set evs \<subseteq> {ev_add_to_cart, ev_error})"
  using retryLoop_frame[of w en p 1 "[]"] singleAttempt_frame[of w en p]
  by (cases e) (simp_all add: triggerAddToCart_def)

subsection \<open>The steps of a valid check\<close>

lemma recoveryStep_fst:
  "fst (recoveryStep p now uw) =
     (if monitorState p = error then (fst uw)\<lparr> u_monitorState := Some active \<rparr> else fst uw)"
  by (cases uw) (simp add: recoveryStep_def)

lemma recoveryStep_snd:
  "upToQty (snd uw) (snd (recoveryStep p now uw))"
  "logged (snd uw) (snd (recoveryStep p now uw))
     (if monitorState p = error then [entry now (pid p) ev_check Recovered] else [])"
  using logged_addLog[OF logged_refl, of "snd uw" "entry now (pid p) ev_check Recovered"]
  by (cases uw; simp add: recoveryStep_def upToQty_same)+

lemma restockStep_not: "\<not> restocked p data \<Longrightarrow> restockStep en e p s now data uw = uw"
  unfolding restocked_def restockStep_def by (cases uw) (simp only: prod.case if_False)

lemma restockStep_yes:
  "restocked p data \<Longrightarrow> restockStep en e p s now data (u, w) =
     (let u1 = u\<lparr> u_lastInStock := Some now \<rparr>;
          w1 = addLog (restockEntry p now data) w;
          w2 = (if notificationsEnabled s then call (NotifyInStock (spread p u1)) w1 else w1);
          w3 = (if audioAlertEnabled s then call (PlayAudioAlert (audioVolume s)) w2 else w2);
          w4 = (if webhookEnabled s \<and> webhookUrl s \<noteq> []
                then call (SendWebhook (webhookUrl s) (spread p u1) hook_in_stock None) w3
                else w3);
          w5 = (if autoAddToCart p \<or> globalAutoAdd s then triggerAddToCart en e p w4 else w4)
      in (u1, w5))"
proof -
  assume "restocked p data"
  then have c: "(d_stockStatus data = in_stock \<and>
                 (stockStatus p = out_of_stock \<or> stockStatus p = unknown)) = True"
    by (simp add: restocked_def)
  show ?thesis
    unfolding restockStep_def restockEntry_def by (simp only: prod.case c if_True)
qed

lemma restockStep_fst:
  "fst (restockStep en e p s now data uw) =
     (if restocked p data then (fst uw)\<lparr> u_lastInStock := Some now \<rparr> else fst uw)"
  by (cases uw; cases "restocked p data") (simp_all add: restockStep_not restockStep_yes Let_def)

lemma restockStep_snd:
  "upToQty (snd uw) (snd (restockStep en e p s now data uw)) \<and>
   (\<exists>rest. logged (snd uw) (snd (restockStep en e p s now data uw))
             (if restocked p data then restockEntry p now data # rest else []) \<and>
           l_event ` set rest \<subseteq> {ev_add_to_cart, ev_error})"
proof (cases uw)
  case (Pair u w)
  show ?thesis
  proof (cases "restocked p data")
    case False
    then show ?thesis using Pair by (auto simp: restockStep_not intro: exI[of _ "[]"])
  next
    case True
    let ?u1 = "u\<lparr> u_lastInStock := Some now \<rparr>"
    let ?w1 = "addLog (restockEntry p now data) w"
    let ?w2 = "if notificationsEnabled s then call (NotifyInStock (spread p ?u1)) ?w1 else ?w1"
    let ?w3 = "if audioAlertEnabled s then call (PlayAudioAlert (audioVolume s)) ?w2 else ?w2"
    let ?w4 = "if webhookEnabled s \<and> webhookUrl s \<noteq> []
               then call (SendWebhook (webhookUrl s) (spread p ?u1) hook_in_stock None) ?w3 else ?w3"
    let ?w5 = "if autoAddToCart p \<or> globalAutoAdd s then triggerAddToCart en e p ?w4 else ?w4"
    have e: "snd (restockStep en e p s now data uw) = ?w5"
      using True Pair by (simp add: restockStep_yes Let_def)
    have l1: "logged w ?w1 [restockEntry p now data]"
      using logged_addLog[OF logged_refl, of w] by simp
    have l4: "logged w ?w4 [restockEntry p now data]"
      using l1 by (auto simp: logged_def)
    have u4: "upToQty w ?w4" by (simp add: upToQty_same)
    obtain rest where r: "upToQty ?w4 ?w5" "logged ?w4 ?w5 rest"
      "l_event ` set rest \<subseteq> {ev_add_to_cart, ev_error}"
    proof (cases "autoAddToCart p \<or> globalAutoAdd s")
      case True
      then show ?thesis using triggerAddToCart_frame[of ?w4 en e p] that by auto
    next
      case False
      then show ?thesis using that[of "[]"] by simp
    qed
    have "logged w ?w5 ([restockEntry p now data] @ rest)"
      using logged_trans[OF l4 r(2)] .
    moreover have "upToQty w ?w5" using upToQty_trans[OF u4 r(1)] .
    ultimately show ?thesis unfolding e using True Pair r(3) by auto
  qed
qed

lemma soldOutStep_fst: "fst (soldOutStep p now data uw) = fst uw"
  by (cases uw) (simp add: soldOutStep_def)

lemma soldOutStep_snd:
  "upToQty (snd uw) (snd (soldOutStep p now data uw))"
  "logged (snd uw) (snd (soldOutStep p now data uw))
     (if d_stockStatus data = out_of_stock \<and> stockStatus p = in_stock
      then [entry now (pid p) ev_out_of_stock (NowOutOfStock (name p))] else [])"
  using logged_addLog[OF logged_refl, of "snd uw" "entry now (pid p) ev_out_of_stock (NowOutOfStock (name p))"]
  by (cases uw; simp add: soldOutStep_def upToQty_same)+

lemma priceDropStep_fst:
  "fst (priceDropStep p s now data uw) =
     (if priceFell p data then (fst uw)\<lparr> u_previousPrice := Some (currentPrice p) \<rparr> else fst uw)"
  by (cases uw) (simp add: priceDropStep_def priceFell_def Let_def)

lemma priceDropStep_snd:
  "upToQty (snd uw) (snd (priceDropStep p s now data uw))"
  "logged (snd uw) (snd (priceDropStep p s now data uw))
     (if priceFell p data \<and> dropPercent p data \<ge> priceDropThreshold s
      then [priceDropEntry p now data] else [])"
proof -
  obtain u w where uw: "uw = (u, w)" by (cases uw)
  show "upToQty (snd uw) (snd (priceDropStep p s now data uw))"
    unfolding uw by (simp add: priceDropStep_def Let_def upToQty_same)
  have l1: "logged w (addLog (priceDropEntry p now data) w) [priceDropEntry p now data]"
    using logged_addLog[OF logged_refl, of w] by simp
  show "logged (snd uw) (snd (priceDropStep p s now data uw))
     (if priceFell p data \<and> dropPercent p data \<ge> priceDropThreshold s
      then [priceDropEntry p now data] else [])"
    unfolding uw using l1
    by (auto simp: priceDropStep_def Let_def priceFell_def dropPercent_def priceDropEntry_def logged_def)
qed

subsection \<open>A valid check as a whole\<close>

lemma validSteps_updates:
  "u_currentPrice (fst (validSteps en e p s now data w)) = Some (newPriceOf data (currentPrice p))"
  "u_stockStatus (fst (validSteps en e p s now data w)) = Some (d_stockStatus data)"
  "u_lastChecked (fst (validSteps en e p s now data w)) = Some now"
  "u_errorCount (fst (validSteps en e p s now data w)) = Some 0"
  "u_lastError (fst (validSteps en e p s now data w)) = Some None"
  "u_history (fst (validSteps en e p s now data w)) = Some (newHistory p s now data)"
  "u_monitorState (fst (validSteps en e p s now data w)) =
     (if monitorState p = error then Some active else None)"
  "u_lastInStock (fst (validSteps en e p s now data w)) =
     (if restocked p data then Some now else None)"
  "u_previousPrice (fst (validSteps en e p s now data w)) =
     (if priceFell p data then Some (currentPrice p) else None)"
  by (simp_all add: validSteps_def priceDropStep_fst soldOutStep_fst restockStep_fst
        recoveryStep_fst baseUpdates_def noUpdates_def Let_def)

lemma validSteps_world:
  "upToQty w (snd (validSteps en e p s now data w)) \<and>
   (\<exists>cart. logged w (snd (validSteps en e p s now data w))
              (butlast (validEntries p s now data cart)) \<and>
           l_event ` set cart \<subseteq> {ev_add_to_cart, ev_error})"
proof -
  let ?a = "(baseUpdates e p s now data, w)"
  let ?b = "recoveryStep p now ?a"
  let ?c = "restockStep en e p s now data ?b"
  let ?d = "soldOutStep p now data ?c"
  let ?f = "priceDropStep p s now data ?d"
  have f: "validSteps en e p s now data w = ?f" by (simp add: validSteps_def)
  note ab = recoveryStep_snd[of ?a p now]
  from restockStep_snd[of ?b en e p s now data] obtain cart where
    bc: "upToQty (snd ?b) (snd ?c)"
        "logged (snd ?b) (snd ?c) (if restocked p data then restockEntry p now data # cart else [])"
        "l_event ` set cart \<subseteq> {ev_add_to_cart, ev_error}" by blast
  note cd = soldOutStep_snd[of ?c p now data]
  note df = priceDropStep_snd[of ?d p s now data]
  have "upToQty w (snd ?f)"
    using upToQty_trans[OF upToQty_trans[OF upToQty_trans[OF ab(1) bc(1)] cd(1)] df(1)] by simp
  moreover have "logged w (snd ?f) (butlast (validEntries p s now data cart))"
    using logged_trans[OF logged_trans[OF logged_trans[OF ab(2) bc(2)] cd(2)] df(2)]
    by (simp add: validEntries_def soldOut_def butlast_append)
  ultimately show ?thesis unfolding f using bc(3) by blast
qed

lemma updateProduct_logged:
  "updateProduct i u w = Returned w' \<Longrightarrow> calls w' = calls w"
  using updateProduct_cases[of i u w] by auto

text \<open>
  In what follows the product passed to \<open>checkProduct\<close> is the one the store holds under
  its id (\<open>getProduct (pid p) w = Some p\<close>), as it is when the tick or the \<^verbatim>\<open>CHECK_NOW\<close>
  message has just loaded it. A product that is no longer stored makes \<^verbatim>\<open>updateProduct\<close>
  throw; the tick catches that (\<open>tickProduct_threw\<close> below).
\<close>

lemma checkProduct_valid:
  assumes v: "isValidProductData e (Some data)" and st: "getProduct (pid p) w = Some p"
  shows "\<exists>w' q cart.
           checkProduct en e p s (Fetched data) w = Returned w' \<and>
           getProduct (pid p) w' =
             Some (spread q (fst (validSteps en e p s (clock w) data (call (FetchProductData (url p)) w)))) \<and>
           q = p\<lparr> maxPurchaseQty := maxPurchaseQty q \<rparr> \<and>
           logged w w' (validEntries p s (clock w) data cart) \<and>
           l_event ` set cart \<subseteq> {ev_add_to_cart, ev_error}"
proof -
  let ?now = "clock w"
  let ?w0 = "call (FetchProductData (url p)) w"
  obtain u w1 where vs: "validSteps en e p s ?now data ?w0 = (u, w1)"
    by (cases "validSteps en e p s ?now data ?w0")
  from validSteps_world[of ?w0 en e p s ?now data] vs obtain cart where
    w1: "upToQty ?w0 w1" "logged ?w0 w1 (butlast (validEntries p s ?now data cart))"
        "l_event ` set cart \<subseteq> {ev_add_to_cart, ev_error}" by auto
  have "getProduct (pid p) ?w0 = Some p" using st by simp
  from upToQty_getProduct[OF w1(1) this] obtain q where
    q: "getProduct (pid p) w1 = Some q" "q = p\<lparr> maxPurchaseQty := maxPurchaseQty q \<rparr>" by blast
  from updateProduct_stored[OF q(1), of u] obtain w2 where
    w2: "updateProduct (pid p) u w1 = Returned w2" "getProduct (pid p) w2 = Some (spread q u)"
        "calls w2 = calls w1" by blast
  let ?last = "entry ?now (pid p) ev_check (Checked (d_stockStatus data) (newPriceOf data (currentPrice p)))"
  let ?w' = "addLog ?last w2"
  have r: "checkProduct en e p s (Fetched data) w = Returned ?w'"
    using v vs w2(1) by (simp add: checkProduct_def validCheck_def andThen_def Let_def)
  have l0: "logged w ?w0 []" by (simp add: logged_def)
  have l2: "logged w w2 (butlast (validEntries p s ?now data cart))"
    using logged_trans[OF l0 w1(2)] w2(3) by (simp add: logged_def)
  have "validEntries p s ?now data cart = butlast (validEntries p s ?now data cart) @ [?last]"
    by (simp add: validEntries_def butlast_append)
  then have l3: "logged w ?w' (validEntries p s ?now data cart)"
    using logged_addLog[OF l2, of ?last] by simp
  show ?thesis
    using r w2(2) q(2) l3 w1(3) vs by (intro exI[of _ ?w'] exI[of _ q] exI[of _ cart]) simp
qed

subsection \<open>Junk data and failed fetches\<close>

lemma spread_fields:
  "currentPrice (spread q u) = orKeep (u_currentPrice u) (currentPrice q)"
  "stockStatus (spread q u) = orKeep (u_stockStatus u) (stockStatus q)"
  "lastChecked (spread q u) = (case u_lastChecked u of None \<Rightarrow> lastChecked q | Some t \<Rightarrow> Some t)"
  "errorCount (spread q u) = orKeep (u_errorCount u) (errorCount q)"
  "lastError (spread q u) = orKeep (u_lastError u) (lastError q)"
  "history (spread q u) = orKeep (u_history u) (history q)"
  "name (spread q u) = orKeep (u_name u) (name q)"
  "imageUrl (spread q u) = orKeep (u_imageUrl u) (imageUrl q)"
  "monitorState (spread q u) = orKeep (u_monitorState u) (monitorState q)"
  "lastInStock (spread q u) = (case u_lastInStock u of None \<Rightarrow> lastInStock q | Some t \<Rightarrow> Some t)"
  "previousPrice (spread q u) = (case u_previousPrice u of None \<Rightarrow> previousPrice q | Some x \<Rightarrow> Some x)"
  by (simp_all add: spread_def)

lemma butQty_fields:
  assumes "q = p\<lparr> maxPurchaseQty := m \<rparr>"
  shows "pid q = pid p" "currentPrice q = currentPrice p" "stockStatus q = stockStatus p"
    "errorCount q = errorCount p" "lastError q = lastError p" "history q = history p"
    "name q = name p" "imageUrl q = imageUrl p" "monitorState q = monitorState p"
    "lastInStock q = lastInStock p" "previousPrice q = previousPrice p" "lastChecked q = lastChecked p"
  by (simp_all add: assms)

lemma spread_junk:
  "spread p (junkUpdates en e p now data) =
     p\<lparr> lastChecked := Some now, errorCount := errorCount p + 1,
        lastError := Some (invalidDataMsg (d_name data)),
        name := orKeep (nameFix en e p) (name p) \<rparr>"
  by (cases p) (simp add: spread_def junkUpdates_def noUpdates_def orKeep_def)

lemma checkProduct_junk:
  assumes v: "\<not> isValidProductData e (Some data)" and st: "getProduct (pid p) w = Some p"
  shows "\<exists>w'. checkProduct en e p s (Fetched data) w = Returned w' \<and>
              getProduct (pid p) w' = Some (spread p (junkUpdates en e p (clock w) data)) \<and>
              clock w' = clock w \<and> RATE_LIMITER w' = RATE_LIMITER w \<and> draws w' = draws w \<and>
              logged w w' [entry (clock w) (pid p) ev_error (Text (invalidDataMsg (d_name data)))]"
proof -
  let ?w0 = "call (FetchProductData (url p)) w"
  have "getProduct (pid p) ?w0 = Some p" using st by simp
  from updateProduct_stored[OF this, of "junkUpdates en e p (clock w) data"] obtain w1 where
    w1: "updateProduct (pid p) (junkUpdates en e p (clock w) data) ?w0 = Returned w1"
        "getProduct (pid p) w1 = Some (spread p (junkUpdates en e p (clock w) data))"
        "calls w1 = calls ?w0" "clock w1 = clock ?w0" "RATE_LIMITER w1 = RATE_LIMITER ?w0"
        "draws w1 = draws ?w0" by blast
  let ?e = "entry (clock w) (pid p) ev_error (Text (invalidDataMsg (d_name data)))"
  let ?w2 = "addLog ?e w1"
  let ?w3 = "if errorCount p + 1 = 10 \<and> notificationsEnabled s
             then call (NotifyError p (TakenDown (errorCount p + 1))) ?w2 else ?w2"
  have r: "checkProduct en e p s (Fetched data) w = Returned ?w3"
    using v w1(1) by (simp add: checkProduct_def junkCheck_def junkUpdates_def andThen_def Let_def)
  have "logged w ?w3 [?e]" using w1(3) by (simp add: logged_def)
  then show ?thesis using r w1 by (intro exI[of _ ?w3]) simp
qed

lemma spread_fail:
  "spread p (failUpdates p now msg) =
     p\<lparr> lastChecked := Some now, errorCount := errorCount p + 1, lastError := Some msg \<rparr>"
  by (cases p) (simp add: spread_def failUpdates_def noUpdates_def orKeep_def)

lemma spread_state:
  "spread q (noUpdates\<lparr> u_monitorState := Some m \<rparr>) = q\<lparr> monitorState := m \<rparr>"
  by (cases q) (simp add: spread_def noUpdates_def orKeep_def)

lemma checkProduct_failed:
  assumes st: "getProduct (pid p) w = Some p"
  shows "\<exists>w'. checkProduct en e p s (FetchFailed msg) w = Returned w' \<and>
              getProduct (pid p) w' =
                Some (p\<lparr> lastChecked := Some (clock w), errorCount := errorCount p + 1,
                        lastError := Some msg,
                        monitorState := (if errorCount p + 1 = 5 then error else monitorState p) \<rparr>) \<and>
              logged w w' [entry (clock w) (pid p) ev_error (Text msg)]"
proof -
  let ?w0 = "call (FetchProductData (url p)) w"
  let ?p1 = "p\<lparr> lastChecked := Some (clock w), errorCount := errorCount p + 1, lastError := Some msg \<rparr>"
  have "getProduct (pid p) ?w0 = Some p" using st by simp
  from updateProduct_stored[OF this, of "failUpdates p (clock w) msg"] obtain w1 where
    w1: "updateProduct (pid p) (failUpdates p (clock w) msg) ?w0 = Returned w1"
        "getProduct (pid p) w1 = Some ?p1" "calls w1 = calls ?w0"
    by (auto simp: spread_fail)
  let ?e = "entry (clock w) (pid p) ev_error (Text msg)"
  let ?w2 = "addLog ?e w1"
  have f: "checkProduct en e p s (FetchFailed msg) w =
      (if errorCount p + 1 = 5
       then andThen (updateProduct (pid p) (noUpdates\<lparr> u_monitorState := Some error \<rparr>) ?w2)
              (\<lambda>w3. Returned (if notificationsEnabled s
                               then call (NotifyError p (HittingErrors (errorCount p + 1) msg)) w3
                               else w3))
       else Returned ?w2)"
    using w1(1) by (simp add: checkProduct_def failedCheck_def failUpdates_def andThen_def Let_def)
  have l2: "logged w ?w2 [?e]" using w1(3) by (simp add: logged_def)
  show ?thesis
  proof (cases "errorCount p + 1 = 5")
    case False
    then show ?thesis using f l2 w1(2) by (intro exI[of _ ?w2]) (cases p, simp)
  next
    case True
    have "getProduct (pid p) ?w2 = Some ?p1" using w1(2) by simp
    from updateProduct_stored[OF this, of "noUpdates\<lparr> u_monitorState := Some error \<rparr>"] obtain w3 where
      w3: "updateProduct (pid p) (noUpdates\<lparr> u_monitorState := Some error \<rparr>) ?w2 = Returned w3"
          "getProduct (pid p) w3 = Some (?p1\<lparr> monitorState := error \<rparr>)" "calls w3 = calls ?w2"
      by (auto simp: spread_state)
    let ?w4 = "if notificationsEnabled s
               then call (NotifyError p (HittingErrors (errorCount p + 1) msg)) w3 else w3"
    have r: "checkProduct en e p s (FetchFailed msg) w = Returned ?w4"
      using f True w3(1) by (simp add: andThen_def)
    have "logged w w3 [?e]" using l2 w3(3) by (simp add: logged_def)
    then have "logged w ?w4 [?e]"
      using logged_call[of "NotifyError p (HittingErrors (errorCount p + 1) msg)" "[]" w w3 "[?e]"]
      by simp
    then show ?thesis using r w3(2) True by (intro exI[of _ ?w4]) simp
  qed
qed

subsection \<open>Transitions detected by a valid check\<close>

lemma entry_events [simp]:
  "l_event (restockEntry p now data) = ev_in_stock"
  "l_event (priceDropEntry p now data) = ev_price_change"
  by (simp_all add: restockEntry_def priceDropEntry_def entry_def)

lemma cart_filter:
  "l_event ` set cart \<subseteq> {ev_add_to_cart, ev_error} \<Longrightarrow> ev \<noteq> ev_add_to_cart \<Longrightarrow> ev \<noteq> ev_error \<Longrightarrow>
   filter (\<lambda>e. l_event e = ev) cart = []"
  by (auto simp: filter_empty_conv)

lemma eventsOf_valid:
  assumes "logged w w' (validEntries p s now data cart)"
    and "l_event ` set cart \<subseteq> {ev_add_to_cart, ev_error}"
  shows "eventsOf ev_price_change (emitted w w') =
           (if priceFell p data \<and> dropPercent p data \<ge> priceDropThreshold s
            then [priceDropEntry p now data] else [])"
    and "eventsOf ev_in_stock (emitted w w') =
           (if restocked p data then [restockEntry p now data] else [])"
  using cart_filter[OF assms(2), of ev_price_change] cart_filter[OF assms(2), of ev_in_stock]
  by (simp_all add: eventsOf_def logged_emitted[OF assms(1)] validEntries_def)


lemma newPriceOf_unusable: "\<forall>x. d_price data = Some x \<longrightarrow> x \<le> 0 \<Longrightarrow> newPriceOf data old = old"
  by (cases "d_price data") (auto simp: newPriceOf_def)

lemma newHistory_take:
  "newHistory p s now data = take (maxHistoryPerProduct s) (newSnapshot p now data # history p)"
  by (simp add: newHistory_def Let_def)



text \<open>
  C4. A valid check writes the back-in-stock entry exactly when the fetched status is
  \<open>in_stock\<close> and the stored status is \<open>out_of_stock\<close> or \<open>unknown\<close>; when it does,
  \<open>lastInStock\<close> becomes the time of the check. From \<open>in_stock\<close> or \<open>limited\<close> nothing is
  written and \<open>lastInStock\<close> keeps its value.
\<close>

theorem C4_restocked:
  assumes "isValidProductData e (Some data)" and "getProduct (pid p) w = Some p"
  shows "\<exists>w' q. checkProduct en e p s (Fetched data) w = Returned w' \<and>
           getProduct (pid p) w' = Some q \<and>
           (eventsOf ev_in_stock (emitted w w') \<noteq> [] \<longleftrightarrow>
              d_stockStatus data = in_stock \<and>
              (stockStatus p = out_of_stock \<or> stockStatus p = unknown)) \<and>
           (eventsOf ev_in_stock (emitted w w') \<noteq> [] \<longrightarrow> lastInStock q = Some (clock w)) \<and>
           (stockStatus p = in_stock \<or> stockStatus p = limited \<longrightarrow>
              eventsOf ev_in_stock (emitted w w') = [] \<and> lastInStock q = lastInStock p)"
proof -
  from checkProduct_valid[OF assms(1,2), of en s] obtain w' q cart where
    r: "checkProduct en e p s (Fetched data) w = Returned w'"
       "getProduct (pid p) w' =
          Some (spread q (fst (validSteps en e p s (clock w) data (call (FetchProductData (url p)) w))))"
       "q = p\<lparr> maxPurchaseQty := maxPurchaseQty q \<rparr>"
       "logged w w' (validEntries p s (clock w) data cart)"
       "l_event ` set cart \<subseteq> {ev_add_to_cart, ev_error}" by blast
  let ?q' = "spread q (fst (validSteps en e p s (clock w) data (call (FetchProductData (url p)) w)))"
  note ev = eventsOf_valid(2)[OF r(4,5)]
  have a: "eventsOf ev_in_stock (emitted w w') \<noteq> [] \<longleftrightarrow>
              d_stockStatus data = in_stock \<and>
              (stockStatus p = out_of_stock \<or> stockStatus p = unknown)"
    using ev by (simp add: restocked_def)
  have b: "eventsOf ev_in_stock (emitted w w') \<noteq> [] \<longrightarrow> lastInStock ?q' = Some (clock w)"
    using ev by (simp add: spread_fields validSteps_updates)
  have c: "stockStatus p = in_stock \<or> stockStatus p = limited \<longrightarrow>
              eventsOf ev_in_stock (emitted w w') = [] \<and> lastInStock ?q' = lastInStock p"
    using ev butQty_fields(10)[OF r(3)]
    by (auto simp: spread_fields validSteps_updates restocked_def)
  show ?thesis using r(1,2) a b c by blast
qed

text \<open>
  C6. After a valid check the stored history is the new snapshot in front of the old
  history, cut to \<open>maxHistoryPerProduct\<close> entries: it is never longer than the cap, with
  a cap of at least 1 the new snapshot is its first entry, and what is cut is a suffix of
  the prepended list, the oldest entries.
\<close>

theorem C6_history_cap:
  assumes "isValidProductData e (Some data)" and "getProduct (pid p) w = Some p"
  shows "\<exists>w' q. checkProduct en e p s (Fetched data) w = Returned w' \<and>
           getProduct (pid p) w' = Some q \<and>
           history q = take (maxHistoryPerProduct s) (newSnapshot p (clock w) data # history p) \<and>
           length (history q) \<le> maxHistoryPerProduct s \<and>
           (0 < maxHistoryPerProduct s \<longrightarrow>
              history q = newSnapshot p (clock w) data #
                            take (maxHistoryPerProduct s - 1) (history p)) \<and>
           newSnapshot p (clock w) data # history p =
             history q @ drop (maxHistoryPerProduct s) (newSnapshot p (clock w) data # history p)"
proof -
  from checkProduct_valid[OF assms(1,2), of en s] obtain w' q cart where
    r: "checkProduct en e p s (Fetched data) w = Returned w'"
       "getProduct (pid p) w' =
          Some (spread q (fst (validSteps en e p s (clock w) data (call (FetchProductData (url p)) w))))"
    by blast
  let ?q' = "spread q (fst (validSteps en e p s (clock w) data (call (FetchProductData (url p)) w)))"
  have h: "history ?q' = take (maxHistoryPerProduct s) (newSnapshot p (clock w) data # history p)"
    by (simp add: spread_fields validSteps_updates orKeep_def newHistory_take)
  have "0 < maxHistoryPerProduct s \<longrightarrow>
          take (maxHistoryPerProduct s) (newSnapshot p (clock w) data # history p) =
          newSnapshot p (clock w) data # take (maxHistoryPerProduct s - 1) (history p)"
    by (cases "maxHistoryPerProduct s") simp_all
  then show ?thesis using r h by (intro exI[of _ w'] exI[of _ ?q']) simp
qed

text \<open>
  C7. Whatever the error count and the monitor state of the product, a valid check
  stores error count 0 and no last error, and a product in state \<open>error\<close> becomes
  \<open>active\<close>; any other state is kept.
\<close>

theorem C7_reset_on_valid:
  assumes "isValidProductData e (Some data)" and "getProduct (pid p) w = Some p"
  shows "\<exists>w' q. checkProduct en e p s (Fetched data) w = Returned w' \<and>
           getProduct (pid p) w' = Some q \<and>
           errorCount q = 0 \<and> lastError q = None \<and>
           (monitorState p = error \<longrightarrow> monitorState q = active) \<and>
           (monitorState p \<noteq> error \<longrightarrow> monitorState q = monitorState p)"
proof -
  from checkProduct_valid[OF assms(1,2), of en s] obtain w' q cart where
    r: "checkProduct en e p s (Fetched data) w = Returned w'"
       "getProduct (pid p) w' =
          Some (spread q (fst (validSteps en e p s (clock w) data (call (FetchProductData (url p)) w))))"
       "q = p\<lparr> maxPurchaseQty := maxPurchaseQty q \<rparr>"
    by blast
  let ?q' = "spread q (fst (validSteps en e p s (clock w) data (call (FetchProductData (url p)) w)))"
  have "errorCount ?q' = 0" "lastError ?q' = None"
    "monitorState p = error \<longrightarrow> monitorState ?q' = active"
    "monitorState p \<noteq> error \<longrightarrow> monitorState ?q' = monitorState p"
    using butQty_fields(9)[OF r(3)]
    by (simp_all add: spread_fields validSteps_updates orKeep_def)
  then show ?thesis using r(1,2) by blast
qed

text \<open>
  C10. When a valid check fetches no usable price (a price of 0 or less, or none), the
  stored price keeps its value, the new history entry carries the old price, the previous
  price is not touched and no price-drop entry is written.
\<close>

theorem C10_unusable_price_keeps_old:
  assumes "isValidProductData e (Some data)" and "getProduct (pid p) w = Some p"
    and "\<forall>x. d_price data = Some x \<longrightarrow> x \<le> 0"
  shows "\<exists>w' q. checkProduct en e p s (Fetched data) w = Returned w' \<and>
           getProduct (pid p) w' = Some q \<and>
           currentPrice q = currentPrice p \<and>
           h_price (newSnapshot p (clock w) data) = currentPrice p \<and>
           history q = take (maxHistoryPerProduct s) (newSnapshot p (clock w) data # history p) \<and>
           previousPrice q = previousPrice p \<and>
           eventsOf ev_price_change (emitted w w') = []"
proof -
  from checkProduct_valid[OF assms(1,2), of en s] obtain w' q cart where
    r: "checkProduct en e p s (Fetched data) w = Returned w'"
       "getProduct (pid p) w' =
          Some (spread q (fst (validSteps en e p s (clock w) data (call (FetchProductData (url p)) w))))"
       "q = p\<lparr> maxPurchaseQty := maxPurchaseQty q \<rparr>"
       "logged w w' (validEntries p s (clock w) data cart)"
       "l_event ` set cart \<subseteq> {ev_add_to_cart, ev_error}" by blast
  let ?q' = "spread q (fst (validSteps en e p s (clock w) data (call (FetchProductData (url p)) w)))"
  have np: "newPriceOf data (currentPrice p) = currentPrice p"
    using assms(3) by (rule newPriceOf_unusable)
  have pf: "\<not> priceFell p data" using np by (simp add: priceFell_def)
  have "currentPrice ?q' = currentPrice p"
    using np by (simp add: spread_fields validSteps_updates orKeep_def)
  moreover have "h_price (newSnapshot p (clock w) data) = currentPrice p"
    using np by (simp add: newSnapshot_def)
  moreover have "history ?q' = take (maxHistoryPerProduct s) (newSnapshot p (clock w) data # history p)"
    by (simp add: spread_fields validSteps_updates orKeep_def newHistory_take)
  moreover have "previousPrice ?q' = previousPrice p"
    using pf butQty_fields(11)[OF r(3)] by (simp add: spread_fields validSteps_updates)
  moreover have "eventsOf ev_price_change (emitted w w') = []"
    using eventsOf_valid(1)[OF r(4,5)] pf by simp
  ultimately show ?thesis using r(1,2) by blast
qed

subsection \<open>The error threshold and the junk path\<close>

text \<open>
  C1, as the code has it. For an active product that is the stored one, a check moves
  \<open>monitorState\<close> to \<open>error\<close> exactly when the fetch fails (the \<^verbatim>\<open>catch\<close> block
  runs) and the resulting error count is 5. A check whose data is classified as junk
  counts the error but returns before the threshold test, and a valid check never sets
  the state to \<open>error\<close>: in both cases the product stays active.
\<close>

theorem C1_error_only_on_fifth_fetch_failure:
  assumes "getProduct (pid p) w = Some p" and "monitorState p = active"
  shows "\<exists>w' q. checkProduct en e p s fetched w = Returned w' \<and>
           getProduct (pid p) w' = Some q \<and>
           (monitorState q = error \<longleftrightarrow>
              (\<exists>msg. fetched = FetchFailed msg) \<and> errorCount p + 1 = 5) \<and>
           monitorState q = (if (\<exists>msg. fetched = FetchFailed msg) \<and> errorCount p + 1 = 5
                             then error else active)"
proof (cases fetched)
  case (FetchFailed msg)
  from checkProduct_failed[OF assms(1), of en e s msg] obtain w' where
    r: "checkProduct en e p s (FetchFailed msg) w = Returned w'"
       "getProduct (pid p) w' =
                Some (p\<lparr> lastChecked := Some (clock w), errorCount := errorCount p + 1,
                        lastError := Some msg,
                        monitorState := (if errorCount p + 1 = 5 then error else monitorState p) \<rparr>)"
    by blast
  show ?thesis unfolding FetchFailed using r assms(2)
    by (intro exI[of _ w']
         exI[of _ "p\<lparr> lastChecked := Some (clock w), errorCount := errorCount p + 1,
                        lastError := Some msg,
                        monitorState := (if errorCount p + 1 = 5 then error else monitorState p) \<rparr>"])
       simp
next
  case (Fetched data)
  show ?thesis
  proof (cases "isValidProductData e (Some data)")
    case True
    from checkProduct_valid[OF True assms(1), of en s] obtain w' q where
      r: "checkProduct en e p s (Fetched data) w = Returned w'"
         "getProduct (pid p) w' =
            Some (spread q (fst (validSteps en e p s (clock w) data (call (FetchProductData (url p)) w))))"
         "q = p\<lparr> maxPurchaseQty := maxPurchaseQty q \<rparr>"
      by blast
    let ?q' = "spread q (fst (validSteps en e p s (clock w) data (call (FetchProductData (url p)) w)))"
    have "monitorState ?q' = active"
      using butQty_fields(9)[OF r(3)] assms(2)
      by (simp add: spread_fields validSteps_updates orKeep_def)
    then show ?thesis unfolding Fetched using r(1,2) by (intro exI[of _ w'] exI[of _ ?q']) simp
  next
    case False
    from checkProduct_junk[OF False assms(1), of en s] obtain w' where
      r: "checkProduct en e p s (Fetched data) w = Returned w'"
         "getProduct (pid p) w' = Some (spread p (junkUpdates en e p (clock w) data))"
      by blast
    have "monitorState (spread p (junkUpdates en e p (clock w) data)) = active"
      using assms(2) by (simp add: spread_junk)
    then show ?thesis unfolding Fetched using r(1,2)
      by (intro exI[of _ w'] exI[of _ "spread p (junkUpdates en e p (clock w) data)"]) simp
  qed
qed

lemma nameFix_cases:
  "nameFix en e p = None \<or>
   (e = Revised \<and> \<not> isValidProductData Revised (Some (storedCandidate p)) \<and>
    nameFix en e p = Some (nameFromUrl en (url p)))"
  by (cases e) (simp_all add: nameFix_def)

lemma tickProduct_returned:
  assumes "notYetDue en p (limiterGate w0) = (False, w)"
    and "checkProduct en e p s (fetchProductData en (url p) (clock w)) w = Returned w'"
  shows "tickProduct en e s p w0 =
           sleep (jitter 2000 (jitterPercent s) (rand en (draws w')))
             (w'\<lparr> RATE_LIMITER := record_js (clock w') (RATE_LIMITER w'),
                  draws := Suc (draws w') \<rparr>)"
  using assms by (simp add: tickProduct_def nextRandom_def Let_def)

lemma tickProduct_threw:
  assumes "notYetDue en p (limiterGate w0) = (False, w)"
    and "checkProduct en e p s (fetchProductData en (url p) (clock w)) w = Threw err w'"
  shows "tickProduct en e s p w0 =
           sleep (jitter 2000 (jitterPercent s) (rand en (draws w')))
             (w'\<lparr> draws := Suc (draws w') \<rparr>)"
  using assms by (simp add: tickProduct_def nextRandom_def Let_def)

lemma monitorLoop_append:
  "monitorLoop en e s (ps @ qs) w = monitorLoop en e s qs (monitorLoop en e s ps w)"
  by (induction ps arbitrary: w) simp_all

text \<open>
  C8. A check whose data is classified as junk returns normally and changes of the
  stored product only \<open>lastChecked\<close>, \<open>errorCount\<close> (one more), \<open>lastError\<close> and, in the
  revised engine when the stored name itself is rejected by the classifier, \<open>name\<close>;
  price, stock status, image, history and monitor state are as before. When this check
  is the one the tick makes for the product, the iteration records the request, pauses
  and the loop goes on with the remaining products.
\<close>

theorem C8_junk_check_frame:
  assumes "\<not> isValidProductData e (Some data)" and "getProduct (pid p) w = Some p"
  shows "\<exists>w' q. checkProduct en e p s (Fetched data) w = Returned w' \<and>
           getProduct (pid p) w' = Some q \<and>
           q = p\<lparr> lastChecked := Some (clock w), errorCount := errorCount p + 1,
                   lastError := Some (invalidDataMsg (d_name data)), name := name q \<rparr> \<and>
           name q = (if e = Revised \<and> \<not> isValidProductData Revised (Some (storedCandidate p))
                     then nameFromUrl en (url p) else name p) \<and>
           currentPrice q = currentPrice p \<and> stockStatus q = stockStatus p \<and>
           imageUrl q = imageUrl p \<and> history q = history p \<and>
           monitorState q = monitorState p \<and>
           (\<forall>w0 rest.
              notYetDue en p (limiterGate w0) = (False, w) \<and>
              fetchProductData en (url p) (clock w) = Fetched data \<longrightarrow>
              monitorLoop en e s (p # rest) w0 =
                monitorLoop en e s rest
                  (sleep (jitter 2000 (jitterPercent s) (rand en (draws w')))
                     (w'\<lparr> RATE_LIMITER := record_js (clock w') (RATE_LIMITER w'),
                          draws := Suc (draws w') \<rparr>)))"
proof -
  from checkProduct_junk[OF assms, of en s] obtain w' where
    r: "checkProduct en e p s (Fetched data) w = Returned w'"
       "getProduct (pid p) w' = Some (spread p (junkUpdates en e p (clock w) data))"
    by blast
  let ?q = "spread p (junkUpdates en e p (clock w) data)"
  have n: "name ?q = (if e = Revised \<and> \<not> isValidProductData Revised (Some (storedCandidate p))
                     then nameFromUrl en (url p) else name p)"
    by (cases e) (simp_all add: spread_junk nameFix_def orKeep_def)
  have q: "?q = p\<lparr> lastChecked := Some (clock w), errorCount := errorCount p + 1,
                   lastError := Some (invalidDataMsg (d_name data)), name := name ?q \<rparr>"
    by (simp add: spread_junk)
  have f: "currentPrice ?q = currentPrice p" "stockStatus ?q = stockStatus p"
    "imageUrl ?q = imageUrl p" "history ?q = history p" "monitorState ?q = monitorState p"
    by (simp_all add: spread_junk)
  have t: "\<forall>w0 rest.
              notYetDue en p (limiterGate w0) = (False, w) \<and>
              fetchProductData en (url p) (clock w) = Fetched data \<longrightarrow>
              monitorLoop en e s (p # rest) w0 =
                monitorLoop en e s rest
                  (sleep (jitter 2000 (jitterPercent s) (rand en (draws w')))
                     (w'\<lparr> RATE_LIMITER := record_js (clock w') (RATE_LIMITER w'),
                          draws := Suc (draws w') \<rparr>))"
    using r(1) by (auto simp: tickProduct_returned)
  show ?thesis
    using r q n f t by (intro exI[of _ w'] exI[of _ ?q] conjI) assumption+
qed

subsection \<open>Attempts and pauses of the add-to-cart run\<close>

lemma upToQty_monitorState:
  "upToQty w w' \<Longrightarrow> map monitorState (products w') = map monitorState (products w)"
  unfolding upToQty_def
proof (induction "products w" "products w'" arbitrary: w w' rule: list_all2_induct)
  case Nil
  then show ?case by simp
next
  case (Cons x xs y ys)
  have "monitorState y = monitorState x" by (subst Cons.hyps(1)) simp
  moreover have "map monitorState ys = map monitorState xs"
    using Cons.hyps(3)[of "w\<lparr> products := xs \<rparr>" "w'\<lparr> products := ys \<rparr>"] by simp
  ultimately show ?case using Cons.hyps(4,5) by (metis list.simps(9))
qed

lemma retryLoop_unrolled:
  "retryLoop en p 1 [] w =
     (case cartAttempt en p 1 w of
        Succeeded w1 \<Rightarrow> w1
      | Failed e1 w1 \<Rightarrow>
          (case cartAttempt en p 2 (sleep 3000 w1) of
             Succeeded w2 \<Rightarrow> w2
           | Failed e2 w2 \<Rightarrow>
               (case cartAttempt en p 3 (sleep 6000 w2) of
                  Succeeded w3 \<Rightarrow> w3
                | Failed e3 w3 \<Rightarrow>
                    addLog (entry (clock w3) (pid p) ev_error (CartGaveUp 3 e3)) w3)))"
  by (simp add: retryLoop.simps ADD_CART_MAX_RETRIES_def ADD_CART_BASE_DELAY_def
        numeral_2_eq_2 numeral_3_eq_3 cong: attemptEnd.case_cong)

lemma cartAttempt_fresh:
  "\<exists>new. calls (endWorld (cartAttempt en p a w)) = calls w @ QueryTabs (url p @ ''*'') # new \<and>
         queries new = 0 \<and> set (sleeps new) \<subseteq> {2000}"
proof -
  have u: "\<And>i u w0 err w3. updateProduct i u w0 = Threw err w3 \<Longrightarrow> calls w3 = calls w0"
    subgoal for i u w0 err w3 using updateProduct_cases[of i u w0] by auto
    done
  show ?thesis
  proof (cases "addToCart en p a")
    case (AcquireThrew msg)
    then show ?thesis by (simp add: cartAttempt_def)
  next
    case (SendThrew c msg)
    then show ?thesis by (simp add: cartAttempt_def)
  next
    case (Replied c response)
    show ?thesis
    proof (cases response)
      case None
      then show ?thesis using Replied by (simp add: cartAttempt_def)
    next
      case (Some r)
      show ?thesis
      proof (cases "r_success r")
        case False
        then show ?thesis using Replied Some by (simp add: cartAttempt_def)
      next
        case True
        let ?w1 = "tabReady p (call (QueryTabs (url p @ ''*'')) w)"
        let ?l = "entry (clock ?w1) (pid p) ev_add_to_cart
                    (CartSucceeded (name p) (r_quantityRequested r) (r_pageMax r) (r_warning r) a)"
        let ?w2 = "addLog ?l ?w1"
        let ?upd = "case r_pageMax r of None \<Rightarrow> Returned ?w2
                  | Some m \<Rightarrow> if m > 0
                      then updateProduct (pid p) (noUpdates\<lparr> u_maxPurchaseQty := Some (Some m) \<rparr>) ?w2
                      else Returned ?w2"
        have e: "cartAttempt en p a w =
                 (case ?upd of Returned w3 \<Rightarrow> Succeeded (closeCreated c w3)
                  | Threw err w3 \<Rightarrow> Failed err (closeCreated c w3))"
          using Replied Some True by (simp add: cartAttempt_def Let_def)
        obtain w3 where w3: "?upd = Returned w3 \<or> (\<exists>err. ?upd = Threw err w3)"
          by (cases ?upd) auto
        have c3: "calls w3 = calls ?w2"
          using w3 by (auto split: option.splits if_splits dest: u updateProduct_logged)
        have ew: "endWorld (cartAttempt en p a w) = closeCreated c w3"
          using w3 e by auto
        show ?thesis unfolding ew using c3 by simp
      qed
    qed
  qed
qed

text \<open>
  The retry loop of the revised engine makes at most three attempts: it stops at the
  first that succeeds, sleeps 3000 ms after a failed first attempt and 6000 ms after a
  failed second one, and after a failed third attempt it writes the failure entry without
  sleeping again. Every attempt starts with a tab query of its own and sleeps only the
  2000 ms it gives a tab to settle. Neither engine's add-to-cart run changes the monitor
  state of a stored product (the service worker's version makes a single attempt).
\<close>

lemma retry_schedule:
  "triggerAddToCart en Revised p w =
     (case cartAttempt en p 1 w of
        Succeeded w1 \<Rightarrow> w1
      | Failed e1 w1 \<Rightarrow>
          (case cartAttempt en p 2 (sleep 3000 w1) of
             Succeeded w2 \<Rightarrow> w2
           | Failed e2 w2 \<Rightarrow>
               (case cartAttempt en p 3 (sleep 6000 w2) of
                  Succeeded w3 \<Rightarrow> w3
                | Failed e3 w3 \<Rightarrow>
                    addLog (entry (clock w3) (pid p) ev_error (CartGaveUp 3 e3)) w3))) \<and>
   (\<exists>new. calls (endWorld (cartAttempt en p a w)) = calls w @ QueryTabs (url p @ ''*'') # new \<and>
          queries new = 0 \<and> set (sleeps new) \<subseteq> {2000}) \<and>
   map monitorState (products (triggerAddToCart en e p w)) = map monitorState (products w)"
  using retryLoop_unrolled[of en p w] cartAttempt_fresh[of en p a w]
    upToQty_monitorState[OF triggerAddToCart_frame[THEN conjunct1, of w en e p]]
  by (simp add: triggerAddToCart_def)

lemma stored_examples:
  "getProduct (pid exampleProduct) exampleWorld = Some exampleProduct"
  "getProduct (pid erroringProduct) (worldOf erroringProduct) = Some erroringProduct"
  "getProduct (pid degradedProduct) (worldOf degradedProduct) = Some degradedProduct"
  by (simp_all add: getProduct_def worldOf_def exampleWorld_def)

lemma example_pids [simp]:
  "pid exampleProduct = ''p1''" "pid erroringProduct = ''p1''" "pid degradedProduct = ''p1''"
  by (simp_all add: exampleProduct_def erroringProduct_def degradedProduct_def)

lemma example_pages:
  "isValidProductData Revised (Some validPage)"
  "isValidProductData Revised (Some unpricedPage)"
  "\<not> isValidProductData Revised (Some junkPage)"
  "\<not> isValidProductData ServiceWorker (Some junkPage)"
  "isValidProductData Revised (Some (storedCandidate exampleProduct))"
  by code_simp+

lemma exampleWorld_fields [simp]:
  "clock exampleWorld = 1000000" "calls exampleWorld = []" "logs exampleWorld = []"
  "draws exampleWorld = 0" "stored_settings exampleWorld = DEFAULT_SETTINGS"
  by (simp_all add: exampleWorld_def)

lemma example_attempts:
  "cartAttempt exampleEnv exampleProduct n w =
     Failed ''No tab'' (call (QueryTabs (url exampleProduct @ ''*'')) w)"
  by (simp add: cartAttempt_def exampleEnv_def)

text \<open>
  C9. The revised \<^verbatim>\<open>triggerAddToCart\<close> is documented in its own header comment as
  attempting up to 3 times with exponential backoff (3s, 6s, 12s), which is also what the
  claim states. The loop sleeps only while \<^verbatim>\<open>attempt < ADD_CART_MAX_RETRIES\<close>: in a
  run whose three attempts all fail (here the browser refuses the tab query each time)
  the program queries the tabs three times, sleeps 3000 ms and 6000 ms between the
  attempts, never sleeps 12000 ms, and then writes the failure entry for attempt 3.
\<close>

theorem C9_no_third_pause:
  "sleeps (calls (triggerAddToCart exampleEnv Revised exampleProduct exampleWorld)) = [3000, 6000] \<and>
   queries (calls (triggerAddToCart exampleEnv Revised exampleProduct exampleWorld)) = 3 \<and>
   Sleep 12000 \<notin> set (calls (triggerAddToCart exampleEnv Revised exampleProduct exampleWorld)) \<and>
   l_details (hd (logs (triggerAddToCart exampleEnv Revised exampleProduct exampleWorld))) =
     CartGaveUp 3 ''No tab'' \<and>
   map monitorState (products (triggerAddToCart exampleEnv Revised exampleProduct exampleWorld)) =
     map monitorState (products exampleWorld)"
proof -
  have t: "triggerAddToCart exampleEnv Revised exampleProduct exampleWorld =
           retryLoop exampleEnv exampleProduct 1 [] exampleWorld"
    by (simp add: triggerAddToCart_def)
  have r: "retryLoop exampleEnv exampleProduct 1 [] exampleWorld =
     addLog (entry 1009000 ''p1'' ev_error (CartGaveUp 3 ''No tab''))
       (call (QueryTabs (url exampleProduct @ ''*''))
          (sleep 6000 (call (QueryTabs (url exampleProduct @ ''*''))
             (sleep 3000 (call (QueryTabs (url exampleProduct @ ''*'')) exampleWorld)))))"
    using retryLoop_unrolled[of exampleEnv exampleProduct exampleWorld]
    by (simp add: example_attempts)
  show ?thesis unfolding t r
    by (simp add: addLog_def MAX_LOGS_def entry_def call_def sleep_def)
qed

text \<open>C1 at a product with four errors whose fetch fails: the state becomes \<open>error\<close>.\<close>

theorem C1_witness:
  "\<exists>w' q. checkProduct exampleEnv Revised erroringProduct DEFAULT_SETTINGS
             (FetchFailed ''tab crashed'') (worldOf erroringProduct) = Returned w' \<and>
          getProduct ''p1'' w' = Some q \<and> monitorState q = error"
proof -
  have h: "monitorState erroringProduct = active" "errorCount erroringProduct = 4"
    by (simp_all add: erroringProduct_def exampleProduct_def)
  show ?thesis
    using C1_error_only_on_fifth_fetch_failure[OF stored_examples(2) h(1),
        of exampleEnv Revised DEFAULT_SETTINGS "FetchFailed ''tab crashed''"]
    by (simp add: h)
qed

text \<open>
  C1, as the claim states it, fails: five consecutive checks of an active product that
  each fetch the challenge page \<^verbatim>\<open>Just a moment...\<close> leave the error count at 5 and
  the monitor state \<open>active\<close>.
\<close>

theorem C1_five_junk_checks_stay_active:
  "\<not> isValidProductData Revised (Some junkPage) \<and>
   (case times 5 (checkNow exampleEnv Revised ''p1'') exampleWorld of
      Returned w' \<Rightarrow> map_option (\<lambda>q. (monitorState q, errorCount q)) (getProduct ''p1'' w')
    | Threw err w' \<Rightarrow> None) = Some (active, 5)"
  by code_simp

subsection \<open>The examples checked\<close>

lemma example_fields [simp]:
  "currentPrice exampleProduct = 2999 / 100" "stockStatus exampleProduct = out_of_stock"
  "monitorState exampleProduct = active" "errorCount exampleProduct = 0"
  "history exampleProduct = []" "name exampleProduct = ''Toy Robot''"
  "imageUrl exampleProduct = ''https://www.kmart.com.au/img/toy-robot.jpg''"
  "monitorState degradedProduct = error" "errorCount degradedProduct = 7"
  by (simp_all add: exampleProduct_def degradedProduct_def)

lemma page_fields [simp]:
  "d_price validPage = Some (2499 / 100)" "d_stockStatus validPage = in_stock"
  "d_price unpricedPage = Some 0" "d_name junkPage = Some ''Just a moment...''"
  by (simp_all add: validPage_def unpricedPage_def junkPage_def)






text \<open>C4 at a product that was out of stock and is found in stock.\<close>

theorem C4_witness:
  "\<exists>w' q. checkProduct exampleEnv Revised exampleProduct DEFAULT_SETTINGS (Fetched validPage)
             exampleWorld = Returned w' \<and>
          getProduct ''p1'' w' = Some q \<and>
          eventsOf ev_in_stock (emitted exampleWorld w') \<noteq> [] \<and>
          lastInStock q = Some 1000000"
  using C4_restocked[OF example_pages(1) stored_examples(1), of exampleEnv DEFAULT_SETTINGS]
  by (simp; blast)

text \<open>C6 at a product with an empty history and the default cap of 500.\<close>

theorem C6_witness:
  "\<exists>w' q. checkProduct exampleEnv Revised exampleProduct DEFAULT_SETTINGS (Fetched validPage)
             exampleWorld = Returned w' \<and>
          getProduct ''p1'' w' = Some q \<and>
          history q = [newSnapshot exampleProduct 1000000 validPage] \<and>
          length (history q) \<le> 500"
proof -
  have m: "maxHistoryPerProduct DEFAULT_SETTINGS = 500" by (simp add: DEFAULT_SETTINGS_def)
  show ?thesis
    using C6_history_cap[OF example_pages(1) stored_examples(1), of exampleEnv DEFAULT_SETTINGS]
    by (simp add: m; blast)
qed

text \<open>C7 at a product in state \<open>error\<close> with seven errors.\<close>

theorem C7_witness:
  "\<exists>w' q. checkProduct exampleEnv Revised degradedProduct DEFAULT_SETTINGS (Fetched validPage)
             (worldOf degradedProduct) = Returned w' \<and>
          getProduct ''p1'' w' = Some q \<and>
          errorCount q = 0 \<and> lastError q = None \<and> monitorState q = active"
  using C7_reset_on_valid[OF example_pages(1) stored_examples(3), of exampleEnv DEFAULT_SETTINGS]
  by simp

text \<open>C10 at a page with an image and a price of 0.\<close>

theorem C10_witness:
  "\<exists>w' q. checkProduct exampleEnv Revised exampleProduct DEFAULT_SETTINGS (Fetched unpricedPage)
             exampleWorld = Returned w' \<and>
          getProduct ''p1'' w' = Some q \<and>
          currentPrice q = 2999 / 100 \<and>
          h_price (newSnapshot exampleProduct 1000000 unpricedPage) = 2999 / 100 \<and>
          eventsOf ev_price_change (emitted exampleWorld w') = []"
proof -
  have h: "\<forall>x. d_price unpricedPage = Some x \<longrightarrow> x \<le> 0" by simp
  show ?thesis
    using C10_unusable_price_keeps_old[OF example_pages(2) stored_examples(1) h,
        of exampleEnv DEFAULT_SETTINGS]
    by (simp; blast)
qed

lemma example_gate: "notYetDue exampleEnv exampleProduct (limiterGate exampleWorld) = (False, exampleWorld)"
  by (simp add: notYetDue_def limiterGate_def canRequest_def exampleWorld_def RATE_LIMITER_init_def)

text \<open>C8 at the challenge page, in a tick over the one stored product.\<close>

theorem C8_witness:
  "\<exists>w' q. checkProduct exampleEnv Revised exampleProduct DEFAULT_SETTINGS (Fetched junkPage)
             exampleWorld = Returned w' \<and>
          getProduct ''p1'' w' = Some q \<and>
          q = exampleProduct\<lparr> lastChecked := Some 1000000, errorCount := 1,
                lastError := Some (invalidDataMsg (Some ''Just a moment...'')) \<rparr> \<and>
          monitorLoop exampleEnv Revised DEFAULT_SETTINGS [exampleProduct] exampleWorld =
            sleep (jitter 2000 (jitterPercent DEFAULT_SETTINGS) (rand exampleEnv (draws w')))
              (w'\<lparr> RATE_LIMITER := record_js (clock w') (RATE_LIMITER w'),
                   draws := Suc (draws w') \<rparr>)"
proof -
  have f: "fetchProductData exampleEnv (url exampleProduct) (clock exampleWorld) = Fetched junkPage"
    by (simp add: exampleEnv_def)
  from C8_junk_check_frame[OF example_pages(3) stored_examples(1), of exampleEnv DEFAULT_SETTINGS]
  obtain w' q where r:
    "checkProduct exampleEnv Revised exampleProduct DEFAULT_SETTINGS (Fetched junkPage) exampleWorld
       = Returned w'"
    "getProduct (pid exampleProduct) w' = Some q"
    "q = exampleProduct\<lparr> lastChecked := Some (clock exampleWorld),
            errorCount := errorCount exampleProduct + 1,
            lastError := Some (invalidDataMsg (d_name junkPage)), name := name q \<rparr>"
    "name q = (if Revised = Revised \<and> \<not> isValidProductData Revised (Some (storedCandidate exampleProduct))
               then nameFromUrl exampleEnv (url exampleProduct) else name exampleProduct)"
    "\<forall>w0 rest.
        notYetDue exampleEnv exampleProduct (limiterGate w0) = (False, exampleWorld) \<and>
        fetchProductData exampleEnv (url exampleProduct) (clock exampleWorld) = Fetched junkPage \<longrightarrow>
        monitorLoop exampleEnv Revised DEFAULT_SETTINGS (exampleProduct # rest) w0 =
          monitorLoop exampleEnv Revised DEFAULT_SETTINGS rest
            (sleep (jitter 2000 (jitterPercent DEFAULT_SETTINGS) (rand exampleEnv (draws w')))
               (w'\<lparr> RATE_LIMITER := record_js (clock w') (RATE_LIMITER w'),
                    draws := Suc (draws w') \<rparr>))"
    by blast
  have n: "name q = name exampleProduct" using r(4) example_pages(5) by simp
  have q: "q = exampleProduct\<lparr> lastChecked := Some 1000000, errorCount := 1,
                lastError := Some (invalidDataMsg (Some ''Just a moment...'')) \<rparr>"
    by (subst r(3)) (simp add: n)
  have l: "monitorLoop exampleEnv Revised DEFAULT_SETTINGS [exampleProduct] exampleWorld =
            sleep (jitter 2000 (jitterPercent DEFAULT_SETTINGS) (rand exampleEnv (draws w')))
              (w'\<lparr> RATE_LIMITER := record_js (clock w') (RATE_LIMITER w'),
                   draws := Suc (draws w') \<rparr>)"
    using r(5)[rule_format, of exampleWorld "[]"] example_gate f by simp
  show ?thesis using r(1,2) q l by (intro exI[of _ w'] exI[of _ q]) simp
qed

end
